theory Spec2Isabelle
  imports Main "HOL-Library.AList"
begin

section \<open>The runtime the handler is written against\<close>

text \<open>
  The page \<open>showimage\<close> is C# on ASP.NET. Its \<open>Hashtable\<close>s hold strings under string
  keys, one entry per key. A table is modelled as an association list: reading is the
  lookup of the key, writing replaces the entry of the key where it is, or appends a new
  one, and \<open>Count\<close> is the number of keys. The order in which \<open>foreach\<close> visits a
  \<open>Hashtable\<close> is not specified by the runtime; the model visits the list in its order.
\<close>

type_synonym hashtable = "(string \<times> string) list"

definition ht_get :: "hashtable \<Rightarrow> string \<Rightarrow> string option" where
  "ht_get h k = map_of h k"

definition ht_set :: "hashtable \<Rightarrow> string \<Rightarrow> string \<Rightarrow> hashtable" where
  "ht_set h k v = AList.update k v h"

definition ht_Count :: "hashtable \<Rightarrow> nat" where
  "ht_Count h = length (remdups (map fst h))"

text \<open>
  \<open>String.Trim()\<close> removes white space at both ends. Characters are bytes here, and the
  white space is the one of ASCII: tab, line feed, vertical tab, form feed, carriage
  return and space.
\<close>

definition isWhiteSpace :: "char \<Rightarrow> bool" where
  "isWhiteSpace c \<longleftrightarrow>
     c = CHR 0x09 \<or> c = CHR 0x0A \<or> c = CHR 0x0B \<or> c = CHR 0x0C \<or> c = CHR 0x0D \<or> c = CHR '' ''"

definition Trim :: "string \<Rightarrow> string" where
  "Trim s = rev (dropWhile isWhiteSpace (rev (dropWhile isWhiteSpace s)))"

text \<open>
  \<open>String.Split(c)\<close> cuts at every occurrence of the separator and keeps the empty
  pieces, so the result always has at least one element.
\<close>

fun Split :: "char \<Rightarrow> string \<Rightarrow> string list" where
  "Split c [] = [[]]"
| "Split c (x # xs) =
     (if x = c then [] # Split c xs
      else (case Split c xs of
              [] \<Rightarrow> [[x]]
            | y # ys \<Rightarrow> (x # y) # ys))"

text \<open>\<open>"font" + j\<close> appends the decimal digits of the integer \<open>j\<close>.\<close>

fun showNat :: "nat \<Rightarrow> string" where
  "showNat n =
     (if n < 10 then [char_of (48 + n)]
      else showNat (n div 10) @ [char_of (48 + n mod 10)])"

declare showNat.simps [simp del]

text \<open>The exceptions the handler can end with.\<close>

datatype error =
    ArgumentException
  | ArgumentNullException
  | NullReferenceException
  | FileNotFoundException string
  | IOException string
  | WebException string

text \<open>
  \<open>Path.GetFileNameWithoutExtension\<close> of the .NET Framework: it throws on a character
  that no path may hold (the double quote, the angle brackets, the bar and the control
  characters), keeps what follows the last directory or volume separator (backslash,
  slash, colon), and cuts that at its last dot when it has one.
\<close>

definition isInvalidPathChar :: "char \<Rightarrow> bool" where
  "isInvalidPathChar c \<longleftrightarrow>
     c = CHR 0x22 \<or> c = CHR ''<'' \<or> c = CHR ''>'' \<or> c = CHR ''|'' \<or> (of_char c :: nat) < 32"

definition isSeparatorChar :: "char \<Rightarrow> bool" where
  "isSeparatorChar c \<longleftrightarrow> c = CHR 0x5C \<or> c = CHR ''/'' \<or> c = CHR '':''"

definition GetFileName :: "string \<Rightarrow> error + string" where
  "GetFileName path =
     (if list_ex isInvalidPathChar path then Inl ArgumentException
      else Inr (rev (takeWhile (\<lambda>c. \<not> isSeparatorChar c) (rev path))))"

definition GetFileNameWithoutExtension :: "string \<Rightarrow> error + string" where
  "GetFileNameWithoutExtension path =
     (case GetFileName path of
        Inl e \<Rightarrow> Inl e
      | Inr name \<Rightarrow>
          if CHR ''.'' \<in> set name
          then Inr (rev (tl (dropWhile (\<lambda>c. c \<noteq> CHR ''.'') (rev name))))
          else Inr name)"

section \<open>Request, file system and trace\<close>

text \<open>
  \<open>Request.QueryString\<close> is a collection with one entry per key; the key of an item
  written without \<open>=\<close> is null. \<open>AllKeys\<close> lists the keys as they were sent. The
  indexer compares keys ignoring case (the collection is built with the comparer
  \<open>OrdinalIgnoreCase\<close>, which compares the upper-case forms of the characters), and
  answers with the value of the first entry whose key matches.
\<close>

record request =
  QueryString :: "(string option \<times> string) list"
  Headers :: "(string \<times> string) list"

definition toUpper :: "char \<Rightarrow> char" where
  "toUpper c =
     (if (97::nat) \<le> of_char c \<and> (of_char c :: nat) \<le> 122 then char_of ((of_char c :: nat) - 32)
      else c)"

definition equalsIgnoreCase :: "string \<Rightarrow> string \<Rightarrow> bool" where
  "equalsIgnoreCase a b \<longleftrightarrow> map toUpper a = map toUpper b"

definition AllKeys :: "(string option \<times> string) list \<Rightarrow> string option list" where
  "AllKeys q = map fst q"

fun Item :: "(string option \<times> string) list \<Rightarrow> string \<Rightarrow> string option" where
  "Item [] k = None"
| "Item ((None, v) # q) k = Item q k"
| "Item ((Some key, v) # q) k = (if equalsIgnoreCase key k then Some v else Item q k)"

text \<open>
  Every effect of the handler is an event of the trace: a \<open>File.Exists\<close> probe, a file
  read (\<open>StreamReader\<close>, \<open>parseIni\<close>, \<open>Response.WriteFile\<close>), the opening of a file for
  writing, and a call of the remote renderer with its URL, parameters and referer.
\<close>

datatype event =
    FileExists string
  | FileRead string
  | FileWrite string
  | Render string hashtable string

record world =
  files :: "string \<rightharpoonup> string"
  writable :: "string \<Rightarrow> bool"
  trace :: "event list"

definition File_Exists :: "string \<Rightarrow> world \<Rightarrow> bool \<times> world" where
  "File_Exists path w = (files w path \<noteq> None, w\<lparr>trace := trace w @ [FileExists path]\<rparr>)"

definition ReadToEnd :: "string \<Rightarrow> world \<Rightarrow> (error + string) \<times> world" where
  "ReadToEnd path w =
     (case files w path of
        None \<Rightarrow> (Inl (FileNotFoundException path), w\<lparr>trace := trace w @ [FileRead path]\<rparr>)
      | Some content \<Rightarrow> (Inr content, w\<lparr>trace := trace w @ [FileRead path]\<rparr>))"

section \<open>The members of Libwiris the page uses\<close>

text \<open>
  The class \<open>Libwiris\<close> is not among the sources. Its constants, tables and service
  functions are the fields of the record below, so that every statement about the page
  holds whatever they are; \<open>MapPath\<close> is the page's own mapping of a virtual path to a
  directory. \<open>parseIni\<close> is given the content of the file it is asked to parse.
\<close>

record libwiris =
  configFile :: string
  loadConfig :: "string \<Rightarrow> hashtable"
  MapPath :: "string \<Rightarrow> string"
  FormulaDirectory :: string
  CacheDirectory :: string
  getFormulaDirectory :: "hashtable \<Rightarrow> string option"
  getCacheDirectory :: "hashtable \<Rightarrow> string option"
  xmlFileAttributes :: "string list"
  imageConfigProperties :: hashtable
  parseIni :: "string \<Rightarrow> hashtable"
  getImageServiceURL :: "hashtable \<Rightarrow> string"
  getReferer :: "request \<Rightarrow> string"
  getContents :: "string \<Rightarrow> hashtable \<Rightarrow> string \<Rightarrow> error + string"

text \<open>
  Modelled from the spec: \<open>Libwiris.inArray\<close> is not among the sources; the spec reads
  the test as "the name is in the fixed attribute-name list".
\<close>

definition inArray :: "string \<Rightarrow> string list \<Rightarrow> bool" where
  "inArray needle haystack = List.member haystack needle"

definition Libwiris_getContents ::
  "libwiris \<Rightarrow> string \<Rightarrow> hashtable \<Rightarrow> string \<Rightarrow> world \<Rightarrow> (error + string) \<times> world" where
  "Libwiris_getContents L url properties referer w =
     (getContents L url properties referer,
      w\<lparr>trace := trace w @ [Render url properties referer]\<rparr>)"

definition Libwiris_parseIni ::
  "libwiris \<Rightarrow> string \<Rightarrow> world \<Rightarrow> (error + hashtable) \<times> world" where
  "Libwiris_parseIni L formulaFile w =
     (case ReadToEnd formulaFile w of
        (Inl e, w') \<Rightarrow> (Inl e, w')
      | (Inr content, w') \<Rightarrow> (Inr (parseIni L content), w'))"

section \<open>Reading a formula descriptor\<close>

record configAndFonts =
  caf_mathml :: string
  caf_config :: hashtable
  caf_fonts :: hashtable

text \<open>
  The first loop of \<open>getConfigurationAndFonts\<close>: line \<open>i\<close> is stored under the
  configuration key of attribute \<open>j\<close>. An attribute that the table
  \<open>imageConfigProperties\<close> does not hold gives a null key, and storing under a null key
  throws. The loop returns the configuration and the lines it has not read.
\<close>

fun getConfigurationAndFonts_attributes ::
  "libwiris \<Rightarrow> string list \<Rightarrow> string list \<Rightarrow> hashtable \<Rightarrow> error + (hashtable \<times> string list)" where
  "getConfigurationAndFonts_attributes L (line # lines) (attribute # attributes) cfg =
     (case ht_get (imageConfigProperties L) attribute of
        None \<Rightarrow> Inl ArgumentNullException
      | Some k \<Rightarrow>
          getConfigurationAndFonts_attributes L lines attributes (ht_set cfg k (Trim line)))"
| "getConfigurationAndFonts_attributes L lines attributes cfg = Inr (cfg, lines)"

text \<open>The second loop: every remaining line that is not empty is the next font.\<close>

fun getConfigurationAndFonts_fonts :: "string list \<Rightarrow> nat \<Rightarrow> hashtable \<Rightarrow> hashtable" where
  "getConfigurationAndFonts_fonts [] j fnts = fnts"
| "getConfigurationAndFonts_fonts (l # lines) j fnts =
     (let line = Trim l in
      if length line > 0
      then getConfigurationAndFonts_fonts lines (j + 1) (ht_set fnts (''font'' @ showNat j) line)
      else getConfigurationAndFonts_fonts lines j fnts)"

text \<open>
  \<open>getConfigurationAndFonts\<close> reads the file to its end and works on the content: the
  first line is the MathML, then the attributes, then the fonts.
\<close>

definition getConfigurationAndFonts_content ::
  "libwiris \<Rightarrow> hashtable \<Rightarrow> string \<Rightarrow> error + configAndFonts" where
  "getConfigurationAndFonts_content L cfg content =
     (case Split CHR 0x0A content of
        [] \<Rightarrow> Inr \<lparr>caf_mathml = [], caf_config = cfg, caf_fonts = []\<rparr>
      | line0 # lines \<Rightarrow>
          (case getConfigurationAndFonts_attributes L lines (xmlFileAttributes L) cfg of
             Inl e \<Rightarrow> Inl e
           | Inr (cfg', lines') \<Rightarrow>
               Inr \<lparr>caf_mathml = Trim line0, caf_config = cfg',
                    caf_fonts = getConfigurationAndFonts_fonts lines' 0 []\<rparr>))"

definition getConfigurationAndFonts ::
  "libwiris \<Rightarrow> hashtable \<Rightarrow> string \<Rightarrow> world \<Rightarrow> (error + configAndFonts) \<times> world" where
  "getConfigurationAndFonts L cfg formulaFile w =
     (case ReadToEnd formulaFile w of
        (Inl e, w') \<Rightarrow> (Inl e, w')
      | (Inr content, w') \<Rightarrow> (getConfigurationAndFonts_content L cfg content, w'))"

text \<open>
  The loop of \<open>getConfigurationAndFontsFromIni\<close> over the parsed entries: \<open>mml\<close> is
  skipped, a key that starts with \<open>font\<close> goes to the fonts, any other key is
  translated by the table (and throws when the table does not hold it).
\<close>

fun getConfigurationAndFontsFromIni_entries ::
  "libwiris \<Rightarrow> hashtable \<Rightarrow> hashtable \<Rightarrow> hashtable \<Rightarrow> error + (hashtable \<times> hashtable)" where
  "getConfigurationAndFontsFromIni_entries L [] cfg fnts = Inr (cfg, fnts)"
| "getConfigurationAndFontsFromIni_entries L ((key, v) # entries) cfg fnts =
     (if key \<noteq> ''mml'' then
        (let value = Trim v in
         if length key \<ge> 4 \<and> take 4 key = ''font''
         then getConfigurationAndFontsFromIni_entries L entries cfg (ht_set fnts key value)
         else (case ht_get (imageConfigProperties L) key of
                 None \<Rightarrow> Inl ArgumentNullException
               | Some k \<Rightarrow>
                   getConfigurationAndFontsFromIni_entries L entries (ht_set cfg k value) fnts))
      else getConfigurationAndFontsFromIni_entries L entries cfg fnts)"

text \<open>What \<open>getConfigurationAndFontsFromIni\<close> does with the table that \<open>parseIni\<close>
  returned: the loop, then the MathML (a table without \<open>mml\<close> gives a null, and
  trimming it throws).\<close>

definition getConfigurationAndFontsFromIni_table ::
  "libwiris \<Rightarrow> hashtable \<Rightarrow> hashtable \<Rightarrow> error + configAndFonts" where
  "getConfigurationAndFontsFromIni_table L cfg formulaConfig =
     (case getConfigurationAndFontsFromIni_entries L formulaConfig cfg [] of
        Inl e \<Rightarrow> Inl e
      | Inr (cfg', fnts) \<Rightarrow>
          (case ht_get formulaConfig ''mml'' of
             None \<Rightarrow> Inl NullReferenceException
           | Some m \<Rightarrow> Inr \<lparr>caf_mathml = Trim m, caf_config = cfg', caf_fonts = fnts\<rparr>))"

definition getConfigurationAndFontsFromIni ::
  "libwiris \<Rightarrow> hashtable \<Rightarrow> string \<Rightarrow> world \<Rightarrow> (error + configAndFonts) \<times> world" where
  "getConfigurationAndFontsFromIni L cfg formulaFile w =
     (case Libwiris_parseIni L formulaFile w of
        (Inl e, w') \<Rightarrow> (Inl e, w')
      | (Inr formulaConfig, w') \<Rightarrow>
          (getConfigurationAndFontsFromIni_table L cfg formulaConfig, w'))"

section \<open>Building the parameters and rendering\<close>

text \<open>The loop over \<open>imageConfigProperties\<close>: a configuration value that is set becomes
  the parameter of the server, trimmed.\<close>

fun createImage_config :: "hashtable \<Rightarrow> hashtable \<Rightarrow> hashtable \<Rightarrow> hashtable" where
  "createImage_config [] cfg properties = properties"
| "createImage_config ((serverParam, configKey) # entries) cfg properties =
     (case ht_get cfg configKey of
        None \<Rightarrow> createImage_config entries cfg properties
      | Some v \<Rightarrow> createImage_config entries cfg (ht_set properties serverParam (Trim v)))"

text \<open>The loop over the names of \<open>wirisimagefontranges\<close>: a name that the configuration
  holds becomes the font \<open>carry + i\<close>, and only then \<open>i\<close> grows.\<close>

fun createImage_fontRanges ::
  "hashtable \<Rightarrow> string list \<Rightarrow> nat \<Rightarrow> nat \<Rightarrow> hashtable \<Rightarrow> hashtable" where
  "createImage_fontRanges cfg [] carry i fnts = fnts"
| "createImage_fontRanges cfg (fontRangeName # fontRanges) carry i fnts =
     (let fontRangeNameTrimmed = Trim fontRangeName in
      case ht_get cfg fontRangeNameTrimmed of
        None \<Rightarrow> createImage_fontRanges cfg fontRanges carry i fnts
      | Some v \<Rightarrow>
          createImage_fontRanges cfg fontRanges carry (i + 1)
            (ht_set fnts (''font'' @ showNat (carry + i)) (Trim v)))"

text \<open>The loop that copies the fonts into the parameters; the table read inside the loop
  is the one the loop visits, so the key is always found.\<close>

fun createImage_fonts :: "hashtable \<Rightarrow> hashtable \<Rightarrow> hashtable \<Rightarrow> hashtable" where
  "createImage_fonts [] fnts properties = properties"
| "createImage_fonts ((key, v) # entries) fnts properties =
     (case ht_get fnts key of
        None \<Rightarrow> createImage_fonts entries fnts properties
      | Some v' \<Rightarrow> createImage_fonts entries fnts (ht_set properties key v'))"

text \<open>The loop over the keys of the query string (\<open>useParams\<close>); the key read inside the
  loop is one of the collection, so it is always found.\<close>

fun createImage_userParams ::
  "libwiris \<Rightarrow> (string option \<times> string) list \<Rightarrow> string option list \<Rightarrow> hashtable \<Rightarrow> hashtable" where
  "createImage_userParams L q [] properties = properties"
| "createImage_userParams L q (None # keys) properties = createImage_userParams L q keys properties"
| "createImage_userParams L q (Some key # keys) properties =
     (if inArray key (xmlFileAttributes L) \<or> (length key \<ge> 4 \<and> take 4 key = ''font'')
      then (case Item q key of
              None \<Rightarrow> createImage_userParams L q keys properties
            | Some v \<Rightarrow> createImage_userParams L q keys (ht_set properties key v))
      else createImage_userParams L q keys properties)"

text \<open>
  The part of \<open>createImage\<close> between the reading of the descriptor and the remote call:
  the two retrocompatibility rules, then the parameters. It returns the configuration
  (which decides the URL of the service) and the parameters.
\<close>

definition createImage_properties ::
  "libwiris \<Rightarrow> request \<Rightarrow> configAndFonts \<Rightarrow> bool \<Rightarrow> hashtable \<times> hashtable" where
  "createImage_properties L req configAndFonts useParams =
     (let cfg0 = caf_config configAndFonts;
          cfg1 = (if ht_get cfg0 ''wirisimagenumbercolor'' = None
                     \<and> ht_get cfg0 ''wirisimagesymbolcolor'' \<noteq> None
                  then (case ht_get cfg0 ''wirisimagesymbolcolor'' of
                          Some v \<Rightarrow> ht_set cfg0 ''wirisimagenumbercolor'' v
                        | None \<Rightarrow> cfg0)
                  else cfg0);
          cfg = (if ht_get cfg1 ''wirisimageidentcolor'' = None
                    \<and> ht_get cfg1 ''wirisimagesymbolcolor'' \<noteq> None
                 then (case ht_get cfg1 ''wirisimagesymbolcolor'' of
                         Some v \<Rightarrow> ht_set cfg1 ''wirisimageidentcolor'' v
                       | None \<Rightarrow> cfg1)
                 else cfg1);
          properties0 = ht_set [] ''mml'' (caf_mathml configAndFonts);
          properties1 = createImage_config (imageConfigProperties L) cfg properties0;
          fnts0 = caf_fonts configAndFonts;
          fnts = (case ht_get cfg ''wirisimagefontranges'' of
                    None \<Rightarrow> fnts0
                  | Some ranges \<Rightarrow>
                      createImage_fontRanges cfg (Split CHR '','' ranges) (ht_Count fnts0) 0 fnts0);
          properties2 = createImage_fonts fnts fnts properties1;
          properties = (if useParams
                        then createImage_userParams L (QueryString req)
                               (AllKeys (QueryString req)) properties2
                        else properties2)
      in (cfg, properties))"

text \<open>The first statement of \<open>createImage\<close>: the extension chooses the reader.\<close>

definition createImage_configAndFonts ::
  "libwiris \<Rightarrow> hashtable \<Rightarrow> string \<Rightarrow> string \<Rightarrow> world \<Rightarrow> (error + configAndFonts) \<times> world" where
  "createImage_configAndFonts L cfg formulaPath formulaPathExtension w =
     (if formulaPathExtension = ''ini''
      then getConfigurationAndFontsFromIni L cfg (formulaPath @ ''.ini'') w
      else getConfigurationAndFonts L cfg (formulaPath @ ''.xml'') w)"

definition createImage ::
  "libwiris \<Rightarrow> request \<Rightarrow> hashtable \<Rightarrow> string \<Rightarrow> string \<Rightarrow> bool \<Rightarrow> world
     \<Rightarrow> (error + string) \<times> world" where
  "createImage L req cfg formulaPath formulaPathExtension useParams w =
     (case createImage_configAndFonts L cfg formulaPath formulaPathExtension w of
        (Inl e, w') \<Rightarrow> (Inl e, w')
      | (Inr configAndFonts, w') \<Rightarrow>
          (case createImage_properties L req configAndFonts useParams of
             (cfg', properties) \<Rightarrow>
               Libwiris_getContents L (getImageServiceURL L cfg') properties (getReferer L req) w'))"

text \<open>
  \<open>saveImage\<close> opens the file for writing (which creates or empties it, and throws when
  the path cannot be written) and copies the stream in blocks of 8192 bytes until a read
  returns nothing.
\<close>

function saveImage_copy :: "string \<Rightarrow> string \<Rightarrow> string" where
  "saveImage_copy stream written =
     (let buffer = take 8192 stream; bytesRead = length buffer in
      if bytesRead > 0 then saveImage_copy (drop bytesRead stream) (written @ buffer)
      else written)"
  by pat_completeness auto
termination
  by (relation "measure (\<lambda>(stream, written). length stream)") auto

declare saveImage_copy.simps [simp del]

definition saveImage :: "string \<Rightarrow> string \<Rightarrow> world \<Rightarrow> (error + unit) \<times> world" where
  "saveImage imagePath stream w =
     (if writable w imagePath
      then (Inr (), w\<lparr>files := (files w)(imagePath \<mapsto> saveImage_copy stream []),
                      trace := trace w @ [FileWrite imagePath]\<rparr>)
      else (Inl (IOException imagePath), w\<lparr>trace := trace w @ [FileWrite imagePath]\<rparr>))"

definition createAndSaveImage ::
  "libwiris \<Rightarrow> request \<Rightarrow> hashtable \<Rightarrow> string \<Rightarrow> string \<Rightarrow> string \<Rightarrow> world
     \<Rightarrow> (error + unit) \<times> world" where
  "createAndSaveImage L req cfg formulaPath formulaPathExtension imagePath w =
     (case createImage L req cfg formulaPath formulaPathExtension False w of
        (Inl e, w') \<Rightarrow> (Inl e, w')
      | (Inr imageStream, w') \<Rightarrow> saveImage imagePath imageStream w')"

fun mustBeCached_keys :: "libwiris \<Rightarrow> string option list \<Rightarrow> bool" where
  "mustBeCached_keys L [] = True"
| "mustBeCached_keys L (None # keys) = mustBeCached_keys L keys"
| "mustBeCached_keys L (Some key # keys) =
     (if inArray key (xmlFileAttributes L) \<or> (length key \<ge> 4 \<and> take 4 key = ''font'')
      then False
      else mustBeCached_keys L keys)"

definition mustBeCached :: "libwiris \<Rightarrow> request \<Rightarrow> bool" where
  "mustBeCached L req = mustBeCached_keys L (AllKeys (QueryString req))"

section \<open>The page\<close>

record response =
  ContentType :: string
  Body :: string

text \<open>\<open>Response.WriteFile\<close> reads the file into the body and throws when it is missing.\<close>

definition Response_WriteFile :: "string \<Rightarrow> world \<Rightarrow> (error + response) \<times> world" where
  "Response_WriteFile imagePath w =
     (case ReadToEnd imagePath w of
        (Inl e, w') \<Rightarrow> (Inl e, w')
      | (Inr bytes, w') \<Rightarrow> (Inr \<lparr>ContentType = ''image/png'', Body = bytes\<rparr>, w'))"

definition formulaDirectoryOf :: "libwiris \<Rightarrow> hashtable \<Rightarrow> string" where
  "formulaDirectoryOf L cfg =
     (case getFormulaDirectory L cfg of
        Some d \<Rightarrow> d
      | None \<Rightarrow> MapPath L (FormulaDirectory L))"

definition cacheDirectoryOf :: "libwiris \<Rightarrow> hashtable \<Rightarrow> string" where
  "cacheDirectoryOf L cfg =
     (case getCacheDirectory L cfg of
        Some d \<Rightarrow> d
      | None \<Rightarrow> MapPath L (CacheDirectory L))"

definition Page_Load :: "libwiris \<Rightarrow> request \<Rightarrow> world \<Rightarrow> (error + response) \<times> world" where
  "Page_Load L req w =
     (let cfg = loadConfig L (MapPath L (configFile L)) in
      case Item (QueryString req) ''formula'' of
        Some f \<Rightarrow>
          (case GetFileNameWithoutExtension f of
             Inl e \<Rightarrow> (Inl e, w)
           | Inr formula \<Rightarrow>
               (let formulaPath = formulaDirectoryOf L cfg @ ''/'' @ formula in
                case File_Exists (formulaPath @ ''.ini'') w of
                  (isIni, w1) \<Rightarrow>
                    (let extension = (if isIni then ''ini'' else ''xml'') in
                     if mustBeCached L req then
                       (let imagePath = cacheDirectoryOf L cfg @ ''/'' @ formula @ ''.png'' in
                        case File_Exists imagePath w1 of
                          (cached, w2) \<Rightarrow>
                            if \<not> cached then
                              (case createAndSaveImage L req cfg formulaPath extension imagePath w2 of
                                 (Inl e, w3) \<Rightarrow> (Inl e, w3)
                               | (Inr u, w3) \<Rightarrow> Response_WriteFile imagePath w3)
                            else Response_WriteFile imagePath w2)
                     else
                       (case createImage L req cfg formulaPath extension True w1 of
                          (Inl e, w2) \<Rightarrow> (Inl e, w2)
                        | (Inr imageStream, w2) \<Rightarrow>
                            (Inr \<lparr>ContentType = ''image/png'', Body = imageStream\<rparr>, w2)))))
      | None \<Rightarrow>
          (case Item (QueryString req) ''mml'' of
             Some m \<Rightarrow>
               (let imagePath = cacheDirectoryOf L cfg @ ''/temp.png'';
                    properties = ht_set [] ''mml'' m in
                case Libwiris_getContents L (getImageServiceURL L cfg) properties
                       (getReferer L req) w of
                  (Inl e, w1) \<Rightarrow> (Inl e, w1)
                | (Inr responseStream, w1) \<Rightarrow>
                    (case saveImage imagePath responseStream w1 of
                       (Inl e, w2) \<Rightarrow> (Inl e, w2)
                     | (Inr u, w2) \<Rightarrow> Response_WriteFile imagePath w2))
           | None \<Rightarrow>
               (Inr \<lparr>ContentType = ''text/html'',
                     Body = ''Error: no digest or mathml has been sent''\<rparr>, w)))"

text \<open>Reading the trace: the calls of the renderer, and the paths the file system was
  asked about.\<close>

fun isRender :: "event \<Rightarrow> bool" where
  "isRender (Render url properties referer) = True"
| "isRender e = False"

fun touched :: "event \<Rightarrow> string list" where
  "touched (FileExists p) = [p]"
| "touched (FileRead p) = [p]"
| "touched (FileWrite p) = [p]"
| "touched (Render url properties referer) = []"

definition renders :: "event list \<Rightarrow> event list" where
  "renders evs = filter isRender evs"

definition touchedPaths :: "event list \<Rightarrow> string list" where
  "touchedPaths evs = concat (map touched evs)"

text \<open>
  A concrete installation, for running the page: four attributes, a renderer that answers
  with the MathML it was sent between brackets, and a \<open>parseIni\<close> that reads
  \<open>key=value\<close> lines.
\<close>

fun demo_keyValue :: "string \<Rightarrow> string \<times> string" where
  "demo_keyValue l =
     (takeWhile (\<lambda>c. c \<noteq> CHR ''='') l, drop 1 (dropWhile (\<lambda>c. c \<noteq> CHR ''='') l))"

definition demo_parseIni :: "string \<Rightarrow> hashtable" where
  "demo_parseIni content =
     foldl (\<lambda>h l. if CHR ''='' \<in> set l then ht_set h (fst (demo_keyValue l)) (snd (demo_keyValue l)) else h)
       [] (Split CHR 0x0A content)"

definition demo_render :: "string \<Rightarrow> hashtable \<Rightarrow> string \<Rightarrow> error + string" where
  "demo_render url properties referer =
     (case ht_get properties ''mml'' of
        None \<Rightarrow> Inl (WebException url)
      | Some m \<Rightarrow> Inr (''['' @ m @ '']''))"

definition demo :: libwiris where
  "demo = \<lparr>configFile = ''configuration.ini'',
           loadConfig = (\<lambda>path. []),
           MapPath = (\<lambda>p. ''/site/'' @ p),
           FormulaDirectory = ''formulas'',
           CacheDirectory = ''cache'',
           getFormulaDirectory = (\<lambda>cfg. ht_get cfg ''wirisformuladirectory''),
           getCacheDirectory = (\<lambda>cfg. ht_get cfg ''wiriscachedirectory''),
           xmlFileAttributes = [''bgColor'', ''symbolColor'', ''numberColor'', ''identColor''],
           imageConfigProperties =
             [(''bgColor'', ''wirisimagebgcolor''), (''symbolColor'', ''wirisimagesymbolcolor''),
              (''numberColor'', ''wirisimagenumbercolor''), (''identColor'', ''wirisimageidentcolor'')],
           parseIni = demo_parseIni,
           getImageServiceURL = (\<lambda>cfg. ''http://service/render''),
           getReferer = (\<lambda>req. (case ht_get (Headers req) ''Referer'' of Some r \<Rightarrow> r | None \<Rightarrow> [])),
           getContents = demo_render\<rparr>"

text \<open>The descriptor file that \<open>createImage\<close> reads for an extension.\<close>

definition descriptorFile :: "string \<Rightarrow> string \<Rightarrow> string" where
  "descriptorFile formulaPath ext = formulaPath @ (if ext = ''ini'' then ''.ini'' else ''.xml'')"

definition demo_request :: "(string option \<times> string) list \<Rightarrow> request" where
  "demo_request q = \<lparr>QueryString = q, Headers = [(''Referer'', ''http://site/page'')]\<rparr>"

definition demo_world :: world where
  "demo_world =
     \<lparr>files = [''/site/formulas/eq1.xml'' \<mapsto> ''<math/>'',
               ''/site/formulas/temp.xml'' \<mapsto> ''<temp/>'',
               ''/site/formulas/secret.xml'' \<mapsto> ''<secret/>''],
      writable = (\<lambda>path. True),
      trace = []\<rparr>"

section \<open>One descriptor in the two formats\<close>






section \<open>Tables, files and the trace\<close>


lemma ht_get_set [simp]: "ht_get (ht_set h k v) k' = (if k' = k then Some v else ht_get h k')"
  by (simp add: ht_get_def ht_set_def update_conv')

lemma ht_get_Nil [simp]: "ht_get [] k = None"
  by (simp add: ht_get_def)

lemma ht_keys_set [simp]: "fst ` set (ht_set h k v) = insert k (fst ` set h)"
  by (simp add: ht_set_def dom_update[simplified] )

lemma ht_get_None_iff: "ht_get h k = None \<longleftrightarrow> k \<notin> fst ` set h"
  by (simp add: ht_get_def map_of_eq_None_iff)

lemma distinct_ht_set [simp]: "distinct (map fst h) \<Longrightarrow> distinct (map fst (ht_set h k v))"
  by (simp add: ht_set_def distinct_update)

lemma ht_Count_distinct: "distinct (map fst h) \<Longrightarrow> ht_Count h = length h"
  by (simp add: ht_Count_def distinct_remdups_id)

lemma saveImage_copy_eq [code]: "saveImage_copy stream written = written @ stream"
proof (induction stream written rule: saveImage_copy.induct)
  case (1 stream written)
  show ?case
  proof (cases "stream = []")
    case True
    then show ?thesis by (simp add: saveImage_copy.simps)
  next
    case False
    then have pos: "0 < length (take 8192 stream)" by simp
    have "saveImage_copy stream written
            = saveImage_copy (drop (length (take 8192 stream)) stream) (written @ take 8192 stream)"
      using pos by (subst saveImage_copy.simps) (simp add: Let_def)
    also have "\<dots> = (written @ take 8192 stream) @ drop (length (take 8192 stream)) stream"
      using pos by (intro "1.IH") simp_all
    also have "\<dots> = written @ stream"
      by (cases "length stream \<le> 8192") (simp_all add: min_def)
    finally show ?thesis .
  qed
qed

lemma png_ne_ini: "a @ ''.png'' \<noteq> b @ ''.ini''"
proof
  assume "a @ ''.png'' = b @ ''.ini''"
  then have "last (a @ ''.png'') = last (b @ ''.ini'')" by simp
  then show False by simp
qed

lemma png_ne_xml: "a @ ''.png'' \<noteq> b @ ''.xml''"
proof
  assume "a @ ''.png'' = b @ ''.xml''"
  then have "last (a @ ''.png'') = last (b @ ''.xml'')" by simp
  then show False by simp
qed


subsection \<open>Effects of the readers\<close>


lemma ReadToEnd_snd [simp]: "snd (ReadToEnd p w) = w\<lparr>trace := trace w @ [FileRead p]\<rparr>"
  by (cases "files w p") (simp_all add: ReadToEnd_def)

lemma ReadToEnd_fst:
  "fst (ReadToEnd p w) = (case files w p of None \<Rightarrow> Inl (FileNotFoundException p) | Some c \<Rightarrow> Inr c)"
  by (cases "files w p") (simp_all add: ReadToEnd_def)

lemma getConfigurationAndFonts_snd [simp]:
  "snd (getConfigurationAndFonts L cfg p w) = w\<lparr>trace := trace w @ [FileRead p]\<rparr>"
  by (cases "files w p") (simp_all add: getConfigurationAndFonts_def ReadToEnd_def)

lemma getConfigurationAndFontsFromIni_snd [simp]:
  "snd (getConfigurationAndFontsFromIni L cfg p w) = w\<lparr>trace := trace w @ [FileRead p]\<rparr>"
  by (cases "files w p")
     (simp_all add: getConfigurationAndFontsFromIni_def Libwiris_parseIni_def ReadToEnd_def)

lemma getConfigurationAndFonts_fst:
  "fst (getConfigurationAndFonts L cfg p w) =
     (case files w p of
        None \<Rightarrow> Inl (FileNotFoundException p)
      | Some content \<Rightarrow> getConfigurationAndFonts_content L cfg content)"
  by (cases "files w p") (simp_all add: getConfigurationAndFonts_def ReadToEnd_def)

lemma getConfigurationAndFontsFromIni_fst:
  "fst (getConfigurationAndFontsFromIni L cfg p w) =
     (case files w p of
        None \<Rightarrow> Inl (FileNotFoundException p)
      | Some content \<Rightarrow> getConfigurationAndFontsFromIni_table L cfg (parseIni L content))"
  by (cases "files w p")
     (simp_all add: getConfigurationAndFontsFromIni_def Libwiris_parseIni_def ReadToEnd_def)

lemma createImage_configAndFonts_snd [simp]:
  "snd (createImage_configAndFonts L cfg fp ext w)
     = w\<lparr>trace := trace w @ [FileRead (descriptorFile fp ext)]\<rparr>"
  by (simp add: createImage_configAndFonts_def descriptorFile_def)

lemma createImage_configAndFonts_fst_cong:
  "files w = files w' \<Longrightarrow>
   fst (createImage_configAndFonts L cfg fp ext w) = fst (createImage_configAndFonts L cfg fp ext w')"
  by (simp add: createImage_configAndFonts_def getConfigurationAndFonts_fst
      getConfigurationAndFontsFromIni_fst)

lemma createImage_eq:
  "createImage L req cfg fp ext up w =
     (case fst (createImage_configAndFonts L cfg fp ext w) of
        Inl e \<Rightarrow> (Inl e, w\<lparr>trace := trace w @ [FileRead (descriptorFile fp ext)]\<rparr>)
      | Inr caf \<Rightarrow>
          (getContents L (getImageServiceURL L (fst (createImage_properties L req caf up)))
             (snd (createImage_properties L req caf up)) (getReferer L req),
           w\<lparr>trace := trace w @
              [FileRead (descriptorFile fp ext),
               Render (getImageServiceURL L (fst (createImage_properties L req caf up)))
                 (snd (createImage_properties L req caf up)) (getReferer L req)]\<rparr>))"
proof -
  obtain r w' where rw: "createImage_configAndFonts L cfg fp ext w = (r, w')"
    by (cases "createImage_configAndFonts L cfg fp ext w")
  have w': "w' = w\<lparr>trace := trace w @ [FileRead (descriptorFile fp ext)]\<rparr>"
    using createImage_configAndFonts_snd [of L cfg fp ext w] rw by simp
  show ?thesis
    by (simp add: createImage_def rw w' Libwiris_getContents_def split: sum.splits prod.splits)
qed


lemma saveImage_eq:
  "saveImage p stream w =
     (if writable w p
      then (Inr (), w\<lparr>files := (files w)(p \<mapsto> stream), trace := trace w @ [FileWrite p]\<rparr>)
      else (Inl (IOException p), w\<lparr>trace := trace w @ [FileWrite p]\<rparr>))"
  by (simp add: saveImage_def saveImage_copy_eq)

lemma Response_WriteFile_eq:
  "Response_WriteFile p w =
     (case files w p of
        None \<Rightarrow> (Inl (FileNotFoundException p), w\<lparr>trace := trace w @ [FileRead p]\<rparr>)
      | Some bytes \<Rightarrow>
          (Inr \<lparr>ContentType = ''image/png'', Body = bytes\<rparr>, w\<lparr>trace := trace w @ [FileRead p]\<rparr>))"
  by (simp add: Response_WriteFile_def ReadToEnd_def split: option.splits)

lemma renders_append [simp]: "renders (xs @ ys) = renders xs @ renders ys"
  by (simp add: renders_def)

lemma renders_simps [simp]:
  "renders [] = []"
  "renders (FileExists p # evs) = renders evs"
  "renders (FileRead p # evs) = renders evs"
  "renders (FileWrite p # evs) = renders evs"
  "renders (Render u ps r # evs) = Render u ps r # renders evs"
  by (simp_all add: renders_def)

lemma touchedPaths_append [simp]: "touchedPaths (xs @ ys) = touchedPaths xs @ touchedPaths ys"
  by (simp add: touchedPaths_def)

lemma touchedPaths_simps [simp]:
  "touchedPaths [] = []"
  "touchedPaths (FileExists p # evs) = p # touchedPaths evs"
  "touchedPaths (FileRead p # evs) = p # touchedPaths evs"
  "touchedPaths (FileWrite p # evs) = p # touchedPaths evs"
  "touchedPaths (Render u ps r # evs) = touchedPaths evs"
  by (simp_all add: touchedPaths_def)

text \<open>The cacheable branch, entry present.\<close>

lemma Page_Load_cached:
  assumes "Item (QueryString req) ''formula'' = Some f"
    and "GetFileNameWithoutExtension f = Inr ident"
    and "mustBeCached L req"
    and "cfg = loadConfig L (MapPath L (configFile L))"
    and "fp = formulaDirectoryOf L cfg @ ''/'' @ ident"
    and "imagePath = cacheDirectoryOf L cfg @ ''/'' @ ident @ ''.png''"
    and "files w imagePath = Some bytes"
  shows "Page_Load L req w =
           (Inr \<lparr>ContentType = ''image/png'', Body = bytes\<rparr>,
            w\<lparr>trace := trace w @ [FileExists (fp @ ''.ini''), FileExists imagePath, FileRead imagePath]\<rparr>)"
  using assms
  by (simp add: Page_Load_def Let_def File_Exists_def Response_WriteFile_eq)

lemma Page_Load_fresh:
  assumes "Item (QueryString req) ''formula'' = Some f"
    and "GetFileNameWithoutExtension f = Inr ident"
    and "mustBeCached L req"
    and "cfg = loadConfig L (MapPath L (configFile L))"
    and "fp = formulaDirectoryOf L cfg @ ''/'' @ ident"
    and "imagePath = cacheDirectoryOf L cfg @ ''/'' @ ident @ ''.png''"
    and "ext = (if files w (fp @ ''.ini'') \<noteq> None then ''ini'' else ''xml'')"
    and "files w imagePath = None"
  shows "Page_Load L req w =
     (case fst (createImage_configAndFonts L cfg fp ext w) of
        Inl e \<Rightarrow>
          (Inl e, w\<lparr>trace := trace w @
             [FileExists (fp @ ''.ini''), FileExists imagePath, FileRead (descriptorFile fp ext)]\<rparr>)
      | Inr caf \<Rightarrow>
          (let url = getImageServiceURL L (fst (createImage_properties L req caf False));
               properties = snd (createImage_properties L req caf False);
               evs = [FileExists (fp @ ''.ini''), FileExists imagePath,
                      FileRead (descriptorFile fp ext),
                      Render url properties (getReferer L req)]
           in case getContents L url properties (getReferer L req) of
                Inl e \<Rightarrow> (Inl e, w\<lparr>trace := trace w @ evs\<rparr>)
              | Inr stream \<Rightarrow>
                  if writable w imagePath
                  then (Inr \<lparr>ContentType = ''image/png'', Body = stream\<rparr>,
                        w\<lparr>files := (files w)(imagePath \<mapsto> stream),
                          trace := trace w @ evs @ [FileWrite imagePath, FileRead imagePath]\<rparr>)
                  else (Inl (IOException imagePath),
                        w\<lparr>trace := trace w @ evs @ [FileWrite imagePath]\<rparr>)))"
proof -
  let ?w2 = "w\<lparr>trace := trace w @ [FileExists (fp @ ''.ini''), FileExists imagePath]\<rparr>"
  have same: "fst (createImage_configAndFonts L cfg fp ext ?w2)
                = fst (createImage_configAndFonts L cfg fp ext w)"
    by (rule createImage_configAndFonts_fst_cong) simp
  have PL: "Page_Load L req w =
              (case createAndSaveImage L req cfg fp ext imagePath ?w2 of
                 (Inl e, w3) \<Rightarrow> (Inl e, w3)
               | (Inr u, w3) \<Rightarrow> Response_WriteFile imagePath w3)"
  proof (cases "files w (fp @ ''.ini'')")
    case None
    then have "ext = ''xml''" using assms(7) by simp
    with None assms(1-3,8) show ?thesis
      unfolding assms(4-6)
        by (simp add: Page_Load_def Let_def File_Exists_def split: prod.splits sum.splits)
  next
    case (Some y)
    then have "ext = ''ini''" using assms(7) by simp
    with Some assms(1-3,8) show ?thesis
      unfolding assms(4-6)
        by (simp add: Page_Load_def Let_def File_Exists_def split: prod.splits sum.splits)
  qed
  show ?thesis
    unfolding PL createAndSaveImage_def createImage_eq same
    by (simp add: Let_def saveImage_eq Response_WriteFile_eq split: sum.splits)
qed


lemma Page_Load_uncached:
  assumes "Item (QueryString req) ''formula'' = Some f"
    and "GetFileNameWithoutExtension f = Inr ident"
    and "\<not> mustBeCached L req"
    and "cfg = loadConfig L (MapPath L (configFile L))"
    and "fp = formulaDirectoryOf L cfg @ ''/'' @ ident"
    and "ext = (if files w (fp @ ''.ini'') \<noteq> None then ''ini'' else ''xml'')"
  shows "Page_Load L req w =
     (case fst (createImage_configAndFonts L cfg fp ext w) of
        Inl e \<Rightarrow>
          (Inl e, w\<lparr>trace := trace w @
             [FileExists (fp @ ''.ini''), FileRead (descriptorFile fp ext)]\<rparr>)
      | Inr caf \<Rightarrow>
          (let url = getImageServiceURL L (fst (createImage_properties L req caf True));
               properties = snd (createImage_properties L req caf True);
               w' = w\<lparr>trace := trace w @
                      [FileExists (fp @ ''.ini''), FileRead (descriptorFile fp ext),
                       Render url properties (getReferer L req)]\<rparr>
           in case getContents L url properties (getReferer L req) of
                Inl e \<Rightarrow> (Inl e, w')
              | Inr stream \<Rightarrow> (Inr \<lparr>ContentType = ''image/png'', Body = stream\<rparr>, w')))"
proof -
  let ?w1 = "w\<lparr>trace := trace w @ [FileExists (fp @ ''.ini'')]\<rparr>"
  have same: "fst (createImage_configAndFonts L cfg fp ext ?w1)
                = fst (createImage_configAndFonts L cfg fp ext w)"
    by (rule createImage_configAndFonts_fst_cong) simp
  have PL: "Page_Load L req w =
              (case createImage L req cfg fp ext True ?w1 of
                 (Inl e, w2) \<Rightarrow> (Inl e, w2)
               | (Inr imageStream, w2) \<Rightarrow>
                   (Inr \<lparr>ContentType = ''image/png'', Body = imageStream\<rparr>, w2))"
  proof (cases "files w (fp @ ''.ini'')")
    case None
    then have "ext = ''xml''" using assms(6) by simp
    with None assms(1-3) show ?thesis
      unfolding assms(4-5)
      by (simp add: Page_Load_def Let_def File_Exists_def split: prod.splits sum.splits)
  next
    case (Some y)
    then have "ext = ''ini''" using assms(6) by simp
    with Some assms(1-3) show ?thesis
      unfolding assms(4-5)
      by (simp add: Page_Load_def Let_def File_Exists_def split: prod.splits sum.splits)
  qed
  show ?thesis
    unfolding PL createImage_eq same
    by (simp add: Let_def split: sum.splits)
qed

lemma Page_Load_mml:
  assumes "Item (QueryString req) ''formula'' = None"
    and "Item (QueryString req) ''mml'' = Some m"
    and "cfg = loadConfig L (MapPath L (configFile L))"
    and "imagePath = cacheDirectoryOf L cfg @ ''/temp.png''"
    and "r = Render (getImageServiceURL L cfg) [(''mml'', m)] (getReferer L req)"
  shows "Page_Load L req w =
     (case getContents L (getImageServiceURL L cfg) [(''mml'', m)] (getReferer L req) of
        Inl e \<Rightarrow> (Inl e, w\<lparr>trace := trace w @ [r]\<rparr>)
      | Inr stream \<Rightarrow>
          if writable w imagePath
          then (Inr \<lparr>ContentType = ''image/png'', Body = stream\<rparr>,
                w\<lparr>files := (files w)(imagePath \<mapsto> stream),
                  trace := trace w @ [r, FileWrite imagePath, FileRead imagePath]\<rparr>)
          else (Inl (IOException imagePath), w\<lparr>trace := trace w @ [r, FileWrite imagePath]\<rparr>))"
  using assms(1,2) unfolding assms(3-5)
  by (simp add: Page_Load_def Let_def Libwiris_getContents_def saveImage_eq
      Response_WriteFile_eq ht_set_def split: sum.splits prod.splits)


subsection \<open>Keys, paths and the trace of a formula request\<close>

lemma inArray_iff: "inArray k xs \<longleftrightarrow> k \<in> set xs"
  by (simp add: inArray_def)

lemma mustBeCached_keys_iff:
  "mustBeCached_keys L keys \<longleftrightarrow>
     (\<forall>key. Some key \<in> set keys \<longrightarrow>
        \<not> (key \<in> set (xmlFileAttributes L) \<or> (length key \<ge> 4 \<and> take 4 key = ''font'')))"
  by (induction L keys rule: mustBeCached_keys.induct) (auto simp: inArray_iff)

lemma take4_font_length: "take 4 key = ''font'' \<Longrightarrow> 4 \<le> length key"
proof -
  assume "take 4 key = ''font''"
  then have "length (take 4 key) = 4" by simp
  then show ?thesis by simp
qed

lemma stem_no_separator:
  assumes "GetFileNameWithoutExtension f = Inr stem"
  shows "\<not> list_ex isSeparatorChar stem"
proof -
  define name where "name = rev (takeWhile (\<lambda>c. \<not> isSeparatorChar c) (rev f))"
  have name: "\<not> isSeparatorChar c" if "c \<in> set name" for c
  proof -
    from that have "c \<in> set (takeWhile (\<lambda>c. \<not> isSeparatorChar c) (rev f))"
      by (simp add: name_def)
    then show ?thesis by (rule set_takeWhileD [THEN conjunct2])
  qed
  have cut: "c \<in> set name" if "c \<in> set (rev (tl (dropWhile (\<lambda>c. c \<noteq> CHR ''.'') (rev name))))" for c
  proof -
    from that have "c \<in> set (tl (dropWhile (\<lambda>c. c \<noteq> CHR ''.'') (rev name)))" by simp
    then have "c \<in> set (dropWhile (\<lambda>c. c \<noteq> CHR ''.'') (rev name))"
      by (cases "dropWhile (\<lambda>c. c \<noteq> CHR ''.'') (rev name)") simp_all
    then have "c \<in> set (rev name)" by (rule set_dropWhileD)
    then show ?thesis by simp
  qed
  have gf: "GetFileName f = Inr name"
    using assms by (cases "list_ex isInvalidPathChar f")
      (simp_all add: GetFileNameWithoutExtension_def GetFileName_def name_def)
  have "stem = name \<or> stem = rev (tl (dropWhile (\<lambda>c. c \<noteq> CHR ''.'') (rev name)))"
    using assms unfolding GetFileNameWithoutExtension_def gf
    by (cases "CHR ''.'' \<in> set name") simp_all
  then have "c \<in> set name" if "c \<in> set stem" for c
    using that cut by blast
  then show ?thesis
    using name by (simp add: list_ex_iff)
qed

lemma GetFileNameWithoutExtension_cases:
  "(list_ex isInvalidPathChar f \<and> GetFileNameWithoutExtension f = Inl ArgumentException)
   \<or> (\<not> list_ex isInvalidPathChar f \<and> (\<exists>stem. GetFileNameWithoutExtension f = Inr stem))"
  by (simp add: GetFileNameWithoutExtension_def GetFileName_def)



lemma Page_Load_formula_trace:
  assumes "Item (QueryString req) ''formula'' = Some f"
    and "GetFileNameWithoutExtension f = Inr ident"
    and "cfg = loadConfig L (MapPath L (configFile L))"
    and "fp = formulaDirectoryOf L cfg @ ''/'' @ ident"
    and "imagePath = cacheDirectoryOf L cfg @ ''/'' @ ident @ ''.png''"
  shows "\<exists>evs. trace (snd (Page_Load L req w)) = trace w @ FileExists (fp @ ''.ini'') # evs
           \<and> set (touchedPaths evs) \<subseteq> {fp @ ''.ini'', fp @ ''.xml'', imagePath}"
proof -
  define ext where "ext = (if files w (fp @ ''.ini'') \<noteq> None then ''ini'' else ''xml'')"
  have df: "descriptorFile fp ext = fp @ ''.ini'' \<or> descriptorFile fp ext = fp @ ''.xml''"
    by (simp add: descriptorFile_def)
  show ?thesis
  proof (cases "mustBeCached L req")
    case False
    note PL = Page_Load_uncached [OF assms(1,2) False assms(3,4) ext_def]
    show ?thesis
      using df unfolding PL by (auto simp: Let_def split: sum.splits)
  next
    case True
    show ?thesis
    proof (cases "files w imagePath")
      case (Some bytes)
      show ?thesis
        unfolding Page_Load_cached [OF assms(1,2) True assms(3-5) Some] by simp
    next
      case None
      note PL = Page_Load_fresh [OF assms(1,2) True assms(3-5) ext_def None]
      show ?thesis
        using df unfolding PL by (auto simp: Let_def split: sum.splits)
    qed
  qed
qed

subsection \<open>The caller's parameters\<close>

lemma Item_AllKeys: "Some k \<in> set (AllKeys q) \<Longrightarrow> Item q k \<noteq> None"
proof (induction q k rule: Item.induct)
  case (1 k)
  then show ?case by (simp add: AllKeys_def)
next
  case (2 v q k)
  then show ?case by (simp add: AllKeys_def)
next
  case (3 key v q k)
  show ?case
  proof (cases "equalsIgnoreCase key k")
    case True
    then show ?thesis by simp
  next
    case False
    then have "key \<noteq> k" by (auto simp: equalsIgnoreCase_def)
    with "3.prems" have "Some k \<in> set (AllKeys q)" by (simp add: AllKeys_def)
    with False "3.IH" show ?thesis by simp
  qed
qed

lemma createImage_userParams_get:
  "ht_get (createImage_userParams L q keys properties) k =
     (if Some k \<in> set keys \<and> (k \<in> set (xmlFileAttributes L) \<or> take 4 k = ''font'')
         \<and> Item q k \<noteq> None
      then Item q k else ht_get properties k)"
proof (induction L q keys properties rule: createImage_userParams.induct)
  case (1 L q properties)
  show ?case by simp
next
  case (2 L q keys properties)
  then show ?case by simp
next
  case (3 L q key keys properties)
  show ?case
  proof (cases "inArray key (xmlFileAttributes L) \<or> (length key \<ge> 4 \<and> take 4 key = ''font'')")
    case False
    then have "\<not> (key \<in> set (xmlFileAttributes L) \<or> take 4 key = ''font'')"
      using take4_font_length [of key] by (auto simp: inArray_iff)
    with False 3 show ?thesis by auto
  next
    case True
    then have ov: "key \<in> set (xmlFileAttributes L) \<or> take 4 key = ''font''"
      by (auto simp: inArray_iff)
    show ?thesis
    proof (cases "Item q key")
      case None
      with True ov 3 show ?thesis by auto
    next
      case (Some v)
      with True ov 3 show ?thesis by auto
    qed
  qed
qed

lemma createImage_userParams_cacheable:
  "mustBeCached_keys L keys \<Longrightarrow> createImage_userParams L q keys properties = properties"
proof (induction L q keys properties rule: createImage_userParams.induct)
  case (1 L q properties)
  show ?case by simp
next
  case (2 L q keys properties)
  then show ?case by simp
next
  case (3 L q key keys properties)
  from "3.prems" have no: "\<not> (inArray key (xmlFileAttributes L) \<or> (length key \<ge> 4 \<and> take 4 key = ''font''))"
    and rest: "mustBeCached_keys L keys"
    by (simp_all split: if_splits)
  have "createImage_userParams L q (Some key # keys) properties
          = createImage_userParams L q keys properties"
    using no by auto
  also have "\<dots> = properties"
    using no rest by (rule "3.IH"(3))
  finally show ?case .
qed

lemma createImage_properties_False:
  "createImage_properties L req caf False = createImage_properties L req' caf False"
  by (simp add: createImage_properties_def)

lemma createImage_properties_True:
  "createImage_properties L req caf True =
     (fst (createImage_properties L req caf False),
      createImage_userParams L (QueryString req) (AllKeys (QueryString req))
        (snd (createImage_properties L req caf False)))"
  by (simp add: createImage_properties_def Let_def)

lemma createImage_properties_not_overridden:
  assumes "useParams \<longrightarrow> Some k \<notin> set (AllKeys (QueryString req))"
  shows "ht_get (snd (createImage_properties L req caf useParams)) k
           = ht_get (snd (createImage_properties L req caf False)) k"
proof (cases useParams)
  case False
  then show ?thesis by simp
next
  case True
  with assms show ?thesis
    by (simp add: createImage_properties_True createImage_userParams_get)
qed

subsection \<open>The parameters computed from the descriptor\<close>

lemma createImage_config_other:
  "p \<notin> fst ` set entries \<Longrightarrow>
   ht_get (createImage_config entries cfg properties) p = ht_get properties p"
  by (induction entries cfg properties rule: createImage_config.induct)
     (auto split: option.splits)

lemma createImage_config_get:
  "distinct (map fst entries) \<Longrightarrow> (p, configKey) \<in> set entries \<Longrightarrow>
   ht_get cfg configKey = Some v \<Longrightarrow>
   ht_get (createImage_config entries cfg properties) p = Some (Trim v)"
proof (induction entries cfg properties rule: createImage_config.induct)
  case (1 cfg properties)
  then show ?case by simp
next
  case (2 serverParam ck entries cfg properties)
  show ?case
  proof (cases "(p, configKey) = (serverParam, ck)")
    case True
    with 2 have notin: "p \<notin> fst ` set entries" by auto
    from True "2.prems"(3) have "ht_get cfg ck = Some v" by simp
    with True notin show ?thesis by (simp add: createImage_config_other)
  next
    case False
    with "2.prems" have mem: "(p, configKey) \<in> set entries" and d: "distinct (map fst entries)"
      by auto
    show ?thesis
    proof (cases "ht_get cfg ck")
      case None
      then show ?thesis using "2.IH"(1) [OF None d mem "2.prems"(3)] by simp
    next
      case (Some u)
      then show ?thesis using "2.IH"(2) [OF Some d mem "2.prems"(3)] by simp
    qed
  qed
qed

lemma createImage_fonts_get:
  "ht_get (createImage_fonts entries fnts properties) k =
     (if k \<in> fst ` set entries \<and> ht_get fnts k \<noteq> None then ht_get fnts k
      else ht_get properties k)"
  by (induction entries fnts properties rule: createImage_fonts.induct)
     (auto split: option.splits)

lemma createImage_fonts_self:
  "ht_get (createImage_fonts fnts fnts properties) k =
     (case ht_get fnts k of None \<Rightarrow> ht_get properties k | Some v \<Rightarrow> Some v)"
proof (cases "ht_get fnts k")
  case None
  then show ?thesis by (simp add: createImage_fonts_get)
next
  case (Some v)
  then have "k \<in> fst ` set fnts"
    using ht_get_None_iff [of fnts k] by auto
  with Some show ?thesis by (simp add: createImage_fonts_get)
qed

lemma createImage_properties_fst:
  "fst (createImage_properties L req caf useParams) = fst (createImage_properties L req caf False)"
  by (simp add: createImage_properties_def Let_def)

lemma createImage_properties_snd_False:
  "snd (createImage_properties L req caf False) =
     (let cfg = fst (createImage_properties L req caf False);
          fnts = (case ht_get cfg ''wirisimagefontranges'' of
                    None \<Rightarrow> caf_fonts caf
                  | Some ranges \<Rightarrow>
                      createImage_fontRanges cfg (Split CHR '','' ranges)
                        (ht_Count (caf_fonts caf)) 0 (caf_fonts caf))
      in createImage_fonts fnts fnts
           (createImage_config (imageConfigProperties L) cfg
              (ht_set [] ''mml'' (caf_mathml caf))))"
  by (simp add: createImage_properties_def Let_def)

lemma createImage_properties_numbercolor:
  assumes "ht_get (caf_config caf) ''wirisimagesymbolcolor'' = Some v"
    and "ht_get (caf_config caf) ''wirisimagenumbercolor'' = None"
  shows "ht_get (fst (createImage_properties L req caf useParams)) ''wirisimagenumbercolor'' = Some v"
  using assms by (simp add: createImage_properties_def Let_def)

lemma createImage_properties_identcolor:
  assumes "ht_get (caf_config caf) ''wirisimagesymbolcolor'' = Some v"
    and "ht_get (caf_config caf) ''wirisimageidentcolor'' = None"
  shows "ht_get (fst (createImage_properties L req caf useParams)) ''wirisimageidentcolor'' = Some v"
  using assms by (simp add: createImage_properties_def Let_def)

subsection \<open>Font names and the font ranges\<close>

lemma char_of_nat_inj:
  assumes "char_of (a::nat) = char_of b" and "a < 256" and "b < 256"
  shows "a = b"
proof -
  from assms(1) have "(of_char (char_of a) :: nat) = of_char (char_of b)" by simp
  then have "a mod 256 = b mod 256" by (simp only: of_char_of)
  with assms(2,3) show ?thesis by simp
qed

lemma showNat_nonempty: "showNat n \<noteq> []"
  by (subst showNat.simps) simp

lemma showNat_inj: "showNat a = showNat b \<Longrightarrow> a = b"
proof (induction a arbitrary: b rule: showNat.induct)
  case (1 n)
  show ?case
  proof (cases "n < 10")
    case True
    then have sn: "showNat n = [char_of (48 + n)]" by (subst showNat.simps) simp
    show ?thesis
    proof (cases "b < 10")
      case bs: True
      then have "showNat b = [char_of (48 + b)]" by (subst showNat.simps) simp
      with sn "1.prems" have "char_of (48 + n) = char_of (48 + b)" by simp
      then have "48 + n = 48 + b"
        using True bs by (intro char_of_nat_inj) simp_all
      then show ?thesis by simp
    next
      case False
      then have "showNat b = showNat (b div 10) @ [char_of (48 + b mod 10)]"
        by (subst showNat.simps) simp
      with sn "1.prems" have "showNat (b div 10) = []" by simp
      with showNat_nonempty show ?thesis by blast
    qed
  next
    case False
    then have sn: "showNat n = showNat (n div 10) @ [char_of (48 + n mod 10)]"
      by (subst showNat.simps) simp
    show ?thesis
    proof (cases "b < 10")
      case True
      then have "showNat b = [char_of (48 + b)]" by (subst showNat.simps) simp
      with sn "1.prems" have "showNat (n div 10) = []" by simp
      with showNat_nonempty show ?thesis by blast
    next
      case bl: False
      then have "showNat b = showNat (b div 10) @ [char_of (48 + b mod 10)]"
        by (subst showNat.simps) simp
      with sn "1.prems" have eq: "showNat (n div 10) = showNat (b div 10)"
        and d: "char_of (48 + n mod 10) = char_of (48 + b mod 10)" by simp_all
      from eq have q: "n div 10 = b div 10" by (rule "1.IH" [OF False])
      from d have "48 + n mod 10 = 48 + b mod 10"
        by (intro char_of_nat_inj) simp_all
      then have m: "n mod 10 = b mod 10" by simp
      have "n = 10 * (n div 10) + n mod 10" by simp
      also have "\<dots> = 10 * (b div 10) + b mod 10" by (simp only: q m)
      also have "\<dots> = b" by simp
      finally show ?thesis .
    qed
  qed
qed

lemma font_name_eq [simp]: "''font'' @ showNat a = ''font'' @ showNat b \<longleftrightarrow> a = b"
  using showNat_inj by auto

lemma createImage_fontRanges_other:
  assumes "\<forall>k < length (filter (\<lambda>n. ht_get cfg n \<noteq> None) (map Trim names)).
             key \<noteq> ''font'' @ showNat (carry + i + k)"
  shows "ht_get (createImage_fontRanges cfg names carry i fnts) key = ht_get fnts key"
  using assms
proof (induction names arbitrary: i fnts)
  case Nil
  show ?case by simp
next
  case (Cons n names)
  show ?case
  proof (cases "ht_get cfg (Trim n)")
    case None
    with Cons.prems have "\<forall>k < length (filter (\<lambda>n. ht_get cfg n \<noteq> None) (map Trim names)).
             key \<noteq> ''font'' @ showNat (carry + i + k)" by simp
    from Cons.IH [OF this] None show ?thesis by simp
  next
    case (Some v)
    with Cons.prems have all: "\<forall>k < Suc (length (filter (\<lambda>n. ht_get cfg n \<noteq> None) (map Trim names))).
             key \<noteq> ''font'' @ showNat (carry + i + k)" by simp
    then have first: "key \<noteq> ''font'' @ showNat (carry + i)"
      by (metis add.right_neutral zero_less_Suc)
    have rest: "\<forall>k < length (filter (\<lambda>n. ht_get cfg n \<noteq> None) (map Trim names)).
             key \<noteq> ''font'' @ showNat (carry + (i + 1) + k)"
    proof (intro allI impI)
      fix k assume "k < length (filter (\<lambda>n. ht_get cfg n \<noteq> None) (map Trim names))"
      then have "Suc k < Suc (length (filter (\<lambda>n. ht_get cfg n \<noteq> None) (map Trim names)))" by simp
      with all have "key \<noteq> ''font'' @ showNat (carry + i + Suc k)" by blast
      then show "key \<noteq> ''font'' @ showNat (carry + (i + 1) + k)" by simp
    qed
    from Cons.IH [OF rest] Some first show ?thesis by (simp add: Let_def)
  qed
qed

lemma createImage_fontRanges_get:
  assumes "k < length (filter (\<lambda>n. ht_get cfg n \<noteq> None) (map Trim names))"
  shows "ht_get (createImage_fontRanges cfg names carry i fnts) (''font'' @ showNat (carry + i + k))
           = map_option Trim (ht_get cfg (filter (\<lambda>n. ht_get cfg n \<noteq> None) (map Trim names) ! k))"
  using assms
proof (induction names arbitrary: i fnts k)
  case Nil
  then show ?case by simp
next
  case (Cons n names)
  show ?case
  proof (cases "ht_get cfg (Trim n)")
    case None
    with Cons.prems have "k < length (filter (\<lambda>n. ht_get cfg n \<noteq> None) (map Trim names))" by simp
    from Cons.IH [OF this] None show ?thesis by simp
  next
    case (Some v)
    show ?thesis
    proof (cases k)
      case 0
      have "ht_get (createImage_fontRanges cfg names carry (i + 1)
                (ht_set fnts (''font'' @ showNat (carry + i)) (Trim v))) (''font'' @ showNat (carry + i))
              = ht_get (ht_set fnts (''font'' @ showNat (carry + i)) (Trim v)) (''font'' @ showNat (carry + i))"
        by (rule createImage_fontRanges_other) (auto dest: showNat_inj)
      with Some 0 show ?thesis by (simp add: Let_def)
    next
      case (Suc k')
      with Cons.prems Some have "k' < length (filter (\<lambda>n. ht_get cfg n \<noteq> None) (map Trim names))"
        by simp
      from Cons.IH [OF this, of "i + 1"] Some Suc show ?thesis by (simp add: Let_def)
    qed
  qed
qed

subsection \<open>The names of the fonts\<close>

lemma getConfigurationAndFonts_fonts_keys:
  "\<forall>k \<in> fst ` set fnts. take 4 k = ''font'' \<Longrightarrow>
   \<forall>k \<in> fst ` set (getConfigurationAndFonts_fonts lines j fnts). take 4 k = ''font''"
  by (induction lines j fnts rule: getConfigurationAndFonts_fonts.induct)
     (simp_all add: Let_def)

lemma getConfigurationAndFontsFromIni_entries_keys:
  "getConfigurationAndFontsFromIni_entries L entries cfg fnts = Inr (cfg', fnts') \<Longrightarrow>
   \<forall>k \<in> fst ` set fnts. take 4 k = ''font'' \<Longrightarrow>
   \<forall>k \<in> fst ` set fnts'. take 4 k = ''font''"
proof (induction entries arbitrary: cfg fnts)
  case Nil
  then show ?case by simp
next
  case (Cons entry entries)
  obtain key v where entry: "entry = (key, v)" by (cases entry)
  note run = Cons.prems(1) [unfolded entry]
  show ?case
  proof (cases "key = ''mml''")
    case True
    with run have "getConfigurationAndFontsFromIni_entries L entries cfg fnts = Inr (cfg', fnts')"
      by simp
    then show ?thesis using Cons.prems(2) by (rule Cons.IH)
  next
    case False
    show ?thesis
    proof (cases "length key \<ge> 4 \<and> take 4 key = ''font''")
      case font: True
      have keys: "\<forall>k \<in> fst ` set (ht_set fnts key (Trim v)). take 4 k = ''font''"
        using font Cons.prems(2) by simp
      have "getConfigurationAndFontsFromIni_entries L entries cfg (ht_set fnts key (Trim v))
              = Inr (cfg', fnts')"
        using run False font by (simp add: Let_def)
      then show ?thesis using keys by (rule Cons.IH)
    next
      case other: False
      show ?thesis
      proof (cases "ht_get (imageConfigProperties L) key")
        case None
        with run False other show ?thesis by (simp add: Let_def)
      next
        case (Some k)
        with run False other
        have "getConfigurationAndFontsFromIni_entries L entries (ht_set cfg k (Trim v)) fnts
                = Inr (cfg', fnts')"
          by (simp add: Let_def)
        then show ?thesis using Cons.prems(2) by (rule Cons.IH)
      qed
    qed
  qed
qed

lemma createImage_fontRanges_keys:
  "\<forall>k \<in> fst ` set fnts. take 4 k = ''font'' \<Longrightarrow>
   \<forall>k \<in> fst ` set (createImage_fontRanges cfg names carry i fnts). take 4 k = ''font''"
  by (induction cfg names carry i fnts rule: createImage_fontRanges.induct)
     (simp_all add: Let_def split: option.splits)

lemma parsed_fonts_keys:
  assumes "parsed = getConfigurationAndFonts_content L cfg0 content
           \<or> parsed = getConfigurationAndFontsFromIni_table L cfg0 formulaConfig"
    and "parsed = Inr caf"
  shows "\<forall>k \<in> fst ` set (caf_fonts caf). take 4 k = ''font''"
  using assms(1)
proof
  assume "parsed = getConfigurationAndFonts_content L cfg0 content"
  with assms(2) have c: "getConfigurationAndFonts_content L cfg0 content = Inr caf" by simp
  have e: "\<forall>k \<in> fst ` set ([] :: hashtable). take 4 k = ''font''" by simp
  show ?thesis
  proof (cases "Split CHR 0x0A content")
    case Nil
    with c show ?thesis by (auto simp: getConfigurationAndFonts_content_def)
  next
    case (Cons line0 lines)
    with c obtain cfg' lines' where "caf_fonts caf = getConfigurationAndFonts_fonts lines' 0 []"
      by (auto simp: getConfigurationAndFonts_content_def split: sum.splits)
    then show ?thesis
      using getConfigurationAndFonts_fonts_keys [OF e] by simp
  qed
next
  assume "parsed = getConfigurationAndFontsFromIni_table L cfg0 formulaConfig"
  with assms(2) have c: "getConfigurationAndFontsFromIni_table L cfg0 formulaConfig = Inr caf" by simp
  have e: "\<forall>k \<in> fst ` set ([] :: hashtable). take 4 k = ''font''" by simp
  from c obtain cfg' where
    "getConfigurationAndFontsFromIni_entries L formulaConfig cfg0 [] = Inr (cfg', caf_fonts caf)"
    by (auto simp: getConfigurationAndFontsFromIni_table_def split: sum.splits option.splits)
  then show ?thesis
    by (rule getConfigurationAndFontsFromIni_entries_keys) (rule e)
qed

subsection \<open>The two readers on one descriptor\<close>








lemma equalsIgnoreCase_refl [simp]: "equalsIgnoreCase a a"
  by (simp add: equalsIgnoreCase_def)

lemma temp_slot_identifier_ignoring_case:
  "equalsIgnoreCase (cd @ ''/'' @ ident @ ''.png'') (cd @ ''/temp.png'')
     \<longleftrightarrow> equalsIgnoreCase ident ''temp''"
proof -
  have l: "map toUpper (cd @ ''/'' @ ident @ ''.png'')
             = (map toUpper cd @ map toUpper ''/'') @ map toUpper ident @ map toUpper ''.png''"
    by simp
  have r: "map toUpper (cd @ ''/temp.png'')
             = (map toUpper cd @ map toUpper ''/'') @ map toUpper ''temp'' @ map toUpper ''.png''"
    by simp
  show ?thesis
    unfolding equalsIgnoreCase_def l r same_append_eq append_same_eq by (rule refl)
qed








section \<open>The cache of rendered formulas\<close>

text \<open>
  Claim C1. A cacheable request (\<open>mustBeCached\<close>) for the identifier \<open>ident\<close>: when the
  file \<open>cacheDir/ident.png\<close> exists, its bytes are the body of the answer, no file
  changes and the renderer is not called; when it does not exist and the request is
  answered, the renderer has been called exactly once, its bytes are the content of
  \<open>cacheDir/ident.png\<close> and the body of the answer, and the same request made again
  is answered with the same bytes without another call of the renderer.
\<close>

theorem cacheable_request_renders_once:
  assumes "Item (QueryString req) ''formula'' = Some f"
    and "GetFileNameWithoutExtension f = Inr ident"
    and "mustBeCached L req"
    and "imagePath =
           cacheDirectoryOf L (loadConfig L (MapPath L (configFile L))) @ ''/'' @ ident @ ''.png''"
  shows "(\<forall>bytes. files w imagePath = Some bytes \<longrightarrow>
            fst (Page_Load L req w) = Inr \<lparr>ContentType = ''image/png'', Body = bytes\<rparr>
          \<and> files (snd (Page_Load L req w)) = files w
          \<and> renders (trace (snd (Page_Load L req w))) = renders (trace w))
       \<and> (\<forall>resp. files w imagePath = None \<and> fst (Page_Load L req w) = Inr resp \<longrightarrow>
            ContentType resp = ''image/png''
          \<and> files (snd (Page_Load L req w)) = (files w)(imagePath \<mapsto> Body resp)
          \<and> (\<exists>url properties referer.
                getContents L url properties referer = Inr (Body resp)
              \<and> renders (trace (snd (Page_Load L req w)))
                  = renders (trace w) @ [Render url properties referer]
              \<and> renders (trace (snd (Page_Load L req (snd (Page_Load L req w)))))
                  = renders (trace w) @ [Render url properties referer])
          \<and> fst (Page_Load L req (snd (Page_Load L req w))) = Inr resp)"
proof (intro conjI allI impI)
  fix bytes
  assume hit: "files w imagePath = Some bytes"
  note PL = Page_Load_cached [OF assms(1-3) refl refl assms(4) hit]
  show "fst (Page_Load L req w) = Inr \<lparr>ContentType = ''image/png'', Body = bytes\<rparr>"
    by (simp add: PL)
  show "files (snd (Page_Load L req w)) = files w"
    by (simp add: PL)
  show "renders (trace (snd (Page_Load L req w))) = renders (trace w)"
    by (simp add: PL)
next
  fix resp
  assume "files w imagePath = None \<and> fst (Page_Load L req w) = Inr resp"
  then have miss: "files w imagePath = None" and ok: "fst (Page_Load L req w) = Inr resp"
    by simp_all
  define cfg where "cfg = loadConfig L (MapPath L (configFile L))"
  define fp where "fp = formulaDirectoryOf L cfg @ ''/'' @ ident"
  define ext where "ext = (if files w (fp @ ''.ini'') \<noteq> None then ''ini'' else ''xml'')"
  have ip: "imagePath = cacheDirectoryOf L cfg @ ''/'' @ ident @ ''.png''"
    by (simp add: assms(4) cfg_def)
  note PL = Page_Load_fresh [OF assms(1-3) cfg_def fp_def ip ext_def miss]
  obtain caf where caf: "fst (createImage_configAndFonts L cfg fp ext w) = Inr caf"
    using ok PL by (cases "fst (createImage_configAndFonts L cfg fp ext w)") simp_all
  define url where "url = getImageServiceURL L (fst (createImage_properties L req caf False))"
  define props where "props = snd (createImage_properties L req caf False)"
  obtain stream where stream: "getContents L url props (getReferer L req) = Inr stream"
    using ok PL caf
    by (cases "getContents L url props (getReferer L req)")
       (simp_all add: url_def props_def Let_def)
  have wr: "writable w imagePath"
    using ok PL caf stream by (simp add: url_def props_def Let_def split: if_splits)
  define w' where "w' = w\<lparr>files := (files w)(imagePath \<mapsto> stream),
      trace := trace w @ [FileExists (fp @ ''.ini''), FileExists imagePath,
                 FileRead (descriptorFile fp ext), Render url props (getReferer L req)]
               @ [FileWrite imagePath, FileRead imagePath]\<rparr>"
  have first: "Page_Load L req w = (Inr \<lparr>ContentType = ''image/png'', Body = stream\<rparr>, w')"
    using PL caf stream wr by (simp add: url_def props_def Let_def w'_def)
  have resp: "resp = \<lparr>ContentType = ''image/png'', Body = stream\<rparr>"
    using ok first by simp
  have hit': "files w' imagePath = Some stream"
    by (simp add: w'_def)
  note second = Page_Load_cached [OF assms(1-3) cfg_def fp_def ip hit']
  show "ContentType resp = ''image/png''"
    by (simp add: resp)
  show "files (snd (Page_Load L req w)) = (files w)(imagePath \<mapsto> Body resp)"
    by (simp add: first resp w'_def)
  show "fst (Page_Load L req (snd (Page_Load L req w))) = Inr resp"
    by (simp add: first second resp)
  show "\<exists>url properties referer.
          getContents L url properties referer = Inr (Body resp)
        \<and> renders (trace (snd (Page_Load L req w)))
            = renders (trace w) @ [Render url properties referer]
        \<and> renders (trace (snd (Page_Load L req (snd (Page_Load L req w)))))
            = renders (trace w) @ [Render url properties referer]"
  proof (intro exI conjI)
    show "getContents L url props (getReferer L req) = Inr (Body resp)"
      by (simp add: stream resp)
    show "renders (trace (snd (Page_Load L req w)))
            = renders (trace w) @ [Render url props (getReferer L req)]"
      by (simp add: first w'_def)
    show "renders (trace (snd (Page_Load L req (snd (Page_Load L req w)))))
            = renders (trace w) @ [Render url props (getReferer L req)]"
      by (simp add: first second) (simp add: w'_def)
  qed
qed


theorem cacheable_request_renders_once_witness:
  "Item (QueryString (demo_request [(Some ''formula'', ''eq1'')])) ''formula'' = Some ''eq1''
   \<and> GetFileNameWithoutExtension ''eq1'' = Inr ''eq1''
   \<and> mustBeCached demo (demo_request [(Some ''formula'', ''eq1'')])
   \<and> files demo_world ''/site/cache/eq1.png'' = None
   \<and> fst (Page_Load demo (demo_request [(Some ''formula'', ''eq1'')]) demo_world)
       = Inr \<lparr>ContentType = ''image/png'', Body = ''[<math/>]''\<rparr>
   \<and> files (snd (Page_Load demo (demo_request [(Some ''formula'', ''eq1'')]) demo_world))
       = (files demo_world)(''/site/cache/eq1.png'' \<mapsto> ''[<math/>]'')
   \<and> fst (Page_Load demo (demo_request [(Some ''formula'', ''eq1'')])
         (snd (Page_Load demo (demo_request [(Some ''formula'', ''eq1'')]) demo_world)))
       = Inr \<lparr>ContentType = ''image/png'', Body = ''[<math/>]''\<rparr>
   \<and> fst (Page_Load demo (demo_request [(Some ''formula'', ''eq1'')])
         (demo_world\<lparr>files := (files demo_world)(''/site/cache/eq1.png'' \<mapsto> ''PNG'')\<rparr>))
       = Inr \<lparr>ContentType = ''image/png'', Body = ''PNG''\<rparr>
   \<and> renders (trace (snd (Page_Load demo (demo_request [(Some ''formula'', ''eq1'')])
         (demo_world\<lparr>files := (files demo_world)(''/site/cache/eq1.png'' \<mapsto> ''PNG'')\<rparr>))))
       = []"
proof -
  let ?req = "demo_request [(Some ''formula'', ''eq1'')]"
  let ?hit = "demo_world\<lparr>files := (files demo_world)(''/site/cache/eq1.png'' \<mapsto> ''PNG'')\<rparr>"
  have h1: "Item (QueryString ?req) ''formula'' = Some ''eq1''" by code_simp
  have h2: "GetFileNameWithoutExtension ''eq1'' = Inr ''eq1''" by code_simp
  have h3: "mustBeCached demo ?req" by code_simp
  have h4: "''/site/cache/eq1.png''
              = cacheDirectoryOf demo (loadConfig demo (MapPath demo (configFile demo)))
                @ ''/'' @ ''eq1'' @ ''.png''" by code_simp
  have miss: "files demo_world ''/site/cache/eq1.png'' = None" by code_simp
  have ok: "fst (Page_Load demo ?req demo_world)
              = Inr \<lparr>ContentType = ''image/png'', Body = ''[<math/>]''\<rparr>" by code_simp
  have hit: "files ?hit ''/site/cache/eq1.png'' = Some ''PNG''" by simp
  have tr: "renders (trace ?hit) = []" by (simp add: demo_world_def)
  note fresh = cacheable_request_renders_once [OF h1 h2 h3 h4, of demo_world, THEN conjunct2,
      rule_format, OF conjI [OF miss ok]]
  note cached = cacheable_request_renders_once [OF h1 h2 h3 h4, of ?hit, THEN conjunct1,
      rule_format, OF hit]
  show ?thesis
    using h1 h2 h3 miss ok fresh cached tr by simp
qed

text \<open>
  Claim C2. A request for a formula whose query string has a key of the attribute list,
  or a key that starts with \<open>font\<close>, is not cacheable; answering it changes no file and
  asks the file system nothing about \<open>cacheDir/ident.png\<close>, and whenever the descriptor
  can be read the renderer is called exactly once, with the parameters that include the
  caller's overrides.
\<close>

theorem override_request_bypasses_cache:
  assumes "Item (QueryString req) ''formula'' = Some f"
    and "GetFileNameWithoutExtension f = Inr ident"
    and "Some key \<in> set (AllKeys (QueryString req))"
    and "key \<in> set (xmlFileAttributes L) \<or> take 4 key = ''font''"
    and "cfg = loadConfig L (MapPath L (configFile L))"
    and "fp = formulaDirectoryOf L cfg @ ''/'' @ ident"
    and "ext = (if files w (fp @ ''.ini'') \<noteq> None then ''ini'' else ''xml'')"
    and "imagePath = cacheDirectoryOf L cfg @ ''/'' @ ident @ ''.png''"
  shows "\<not> mustBeCached L req
       \<and> files (snd (Page_Load L req w)) = files w
       \<and> (\<exists>evs. trace (snd (Page_Load L req w)) = trace w @ evs
             \<and> imagePath \<notin> set (touchedPaths evs)
             \<and> (\<forall>caf. fst (createImage_configAndFonts L cfg fp ext w) = Inr caf \<longrightarrow>
                   renders evs =
                     [Render (getImageServiceURL L (fst (createImage_properties L req caf True)))
                        (snd (createImage_properties L req caf True)) (getReferer L req)]))"
proof -
  have nc: "\<not> mustBeCached L req"
    using assms(3,4) take4_font_length [of key]
    by (auto simp: mustBeCached_def mustBeCached_keys_iff)
  note PL = Page_Load_uncached [OF assms(1,2) nc assms(5-7)]
  have ip: "imagePath = (cacheDirectoryOf L cfg @ ''/'' @ ident) @ ''.png''"
    by (simp add: assms(8))
  have ne1: "imagePath \<noteq> fp @ ''.ini''"
    unfolding ip by (rule png_ne_ini)
  have ne2: "imagePath \<noteq> descriptorFile fp ext"
    unfolding ip descriptorFile_def using png_ne_ini png_ne_xml by (cases "ext = ''ini''") simp_all
  show ?thesis
  proof (cases "fst (createImage_configAndFonts L cfg fp ext w)")
    case (Inl e)
    show ?thesis
      using nc ne1 ne2 unfolding PL Inl by simp
  next
    case (Inr caf)
    show ?thesis
      using nc ne1 ne2 unfolding PL Inr
      by (cases "getContents L (getImageServiceURL L (fst (createImage_properties L req caf True)))
                   (snd (createImage_properties L req caf True)) (getReferer L req)")
         (simp_all add: Let_def)
  qed
qed


theorem override_request_bypasses_cache_witness:
  "Item (QueryString (demo_request [(Some ''formula'', ''eq1''), (Some ''fontsize'', ''20'')])) ''formula''
     = Some ''eq1''
   \<and> GetFileNameWithoutExtension ''eq1'' = Inr ''eq1''
   \<and> Some ''fontsize''
       \<in> set (AllKeys (QueryString (demo_request [(Some ''formula'', ''eq1''), (Some ''fontsize'', ''20'')])))
   \<and> take 4 ''fontsize'' = ''font''
   \<and> fst (createImage_configAndFonts demo [] ''/site/formulas/eq1'' ''xml'' demo_world)
       = Inr \<lparr>caf_mathml = ''<math/>'', caf_config = [], caf_fonts = []\<rparr>
   \<and> \<not> mustBeCached demo (demo_request [(Some ''formula'', ''eq1''), (Some ''fontsize'', ''20'')])
   \<and> files (snd (Page_Load demo
         (demo_request [(Some ''formula'', ''eq1''), (Some ''fontsize'', ''20'')]) demo_world))
       = files demo_world
   \<and> trace (snd (Page_Load demo
         (demo_request [(Some ''formula'', ''eq1''), (Some ''fontsize'', ''20'')]) demo_world))
       = [FileExists ''/site/formulas/eq1.ini'', FileRead ''/site/formulas/eq1.xml'',
          Render ''http://service/render'' [(''mml'', ''<math/>''), (''fontsize'', ''20'')]
            ''http://site/page'']"
proof -
  let ?req = "demo_request [(Some ''formula'', ''eq1''), (Some ''fontsize'', ''20'')]"
  have h1: "Item (QueryString ?req) ''formula'' = Some ''eq1''" by code_simp
  have h2: "GetFileNameWithoutExtension ''eq1'' = Inr ''eq1''" by code_simp
  have h3: "Some ''fontsize'' \<in> set (AllKeys (QueryString ?req))" by code_simp
  have h4: "take 4 ''fontsize'' = ''font''" by code_simp
  have h5: "fst (createImage_configAndFonts demo [] ''/site/formulas/eq1'' ''xml'' demo_world)
              = Inr \<lparr>caf_mathml = ''<math/>'', caf_config = [], caf_fonts = []\<rparr>" by code_simp
  have t: "trace (snd (Page_Load demo ?req demo_world))
       = [FileExists ''/site/formulas/eq1.ini'', FileRead ''/site/formulas/eq1.xml'',
          Render ''http://service/render'' [(''mml'', ''<math/>''), (''fontsize'', ''20'')]
            ''http://site/page'']" by code_simp
  note inst = override_request_bypasses_cache [where L = demo and w = demo_world,
      OF h1 h2 h3 disjI2 [OF h4] refl refl refl refl]
  have c1: "\<not> mustBeCached demo ?req"
    by (rule inst [THEN conjunct1])
  have c2: "files (snd (Page_Load demo ?req demo_world)) = files demo_world"
    by (rule inst [THEN conjunct2, THEN conjunct1])
  show ?thesis
    by (intro conjI) (rule h1 h2 h3 h4 h5 c1 c2 t)+
qed

section \<open>The formula identifier\<close>

text \<open>
  Claim C3 says that an identifier with a path segment (\<open>/\<close>, \<open>\\<close>, \<open>..\<close>) or an empty
  identifier is rejected before any access to the file system. The page has no such
  check: the identifier \<open>../secret\<close> is answered from the descriptor \<open>secret\<close>, and the
  empty identifier goes to the file system as well.
\<close>

theorem traversal_identifier_is_served:
  "fst (Page_Load demo (demo_request [(Some ''formula'', ''../secret'')]) demo_world)
     = Inr \<lparr>ContentType = ''image/png'', Body = ''[<secret/>]''\<rparr>
   \<and> touchedPaths (trace (snd (Page_Load demo (demo_request [(Some ''formula'', ''../secret'')])
         demo_world)))
       = [''/site/formulas/secret.ini'', ''/site/cache/secret.png'', ''/site/formulas/secret.xml'',
          ''/site/cache/secret.png'', ''/site/cache/secret.png'']
   \<and> fst (Page_Load demo (demo_request [(Some ''formula'', [])]) demo_world)
       = Inl (FileNotFoundException ''/site/formulas/.xml'')
   \<and> touchedPaths (trace (snd (Page_Load demo (demo_request [(Some ''formula'', [])]) demo_world)))
       = [''/site/formulas/.ini'', ''/site/cache/.png'', ''/site/formulas/.xml'']"
  by code_simp

text \<open>
  Claim C3, as the page does it. The identifier is never rejected for its segments: it is
  reduced to its file name stem, which holds no separator, and every path the request
  touches is \<open>formulaDir/stem.ini\<close>, \<open>formulaDir/stem.xml\<close> or \<open>cacheDir/stem.png\<close>, the
  first being the probe for the \<open>.ini\<close> descriptor. Only an identifier with a character
  that no path may hold ends the request, with the exception of the runtime, before any
  access to the file system.
\<close>

theorem formula_identifier_is_reduced_to_stem:
  assumes "Item (QueryString req) ''formula'' = Some f"
    and "cfg = loadConfig L (MapPath L (configFile L))"
  shows "(list_ex isInvalidPathChar f \<longrightarrow> Page_Load L req w = (Inl ArgumentException, w))
       \<and> (\<not> list_ex isInvalidPathChar f \<longrightarrow>
            (\<exists>stem evs.
                GetFileNameWithoutExtension f = Inr stem
              \<and> \<not> list_ex isSeparatorChar stem
              \<and> trace (snd (Page_Load L req w))
                  = trace w @ FileExists (formulaDirectoryOf L cfg @ ''/'' @ stem @ ''.ini'') # evs
              \<and> set (touchedPaths evs)
                  \<subseteq> {formulaDirectoryOf L cfg @ ''/'' @ stem @ ''.ini'',
                      formulaDirectoryOf L cfg @ ''/'' @ stem @ ''.xml'',
                      cacheDirectoryOf L cfg @ ''/'' @ stem @ ''.png''}))"
proof (intro conjI impI)
  assume "list_ex isInvalidPathChar f"
  then have "GetFileNameWithoutExtension f = Inl ArgumentException"
    using GetFileNameWithoutExtension_cases [of f] by blast
  then show "Page_Load L req w = (Inl ArgumentException, w)"
    using assms(1) by (simp add: Page_Load_def)
next
  assume "\<not> list_ex isInvalidPathChar f"
  then obtain stem where stem: "GetFileNameWithoutExtension f = Inr stem"
    using GetFileNameWithoutExtension_cases [of f] by blast
  obtain evs where
    "trace (snd (Page_Load L req w))
       = trace w @ FileExists ((formulaDirectoryOf L cfg @ ''/'' @ stem) @ ''.ini'') # evs"
    "set (touchedPaths evs)
       \<subseteq> {(formulaDirectoryOf L cfg @ ''/'' @ stem) @ ''.ini'',
           (formulaDirectoryOf L cfg @ ''/'' @ stem) @ ''.xml'',
           cacheDirectoryOf L cfg @ ''/'' @ stem @ ''.png''}"
    using Page_Load_formula_trace [OF assms(1) stem assms(2) refl refl, of w] by blast
  then have
    "GetFileNameWithoutExtension f = Inr stem
     \<and> \<not> list_ex isSeparatorChar stem
     \<and> trace (snd (Page_Load L req w))
         = trace w @ FileExists (formulaDirectoryOf L cfg @ ''/'' @ stem @ ''.ini'') # evs
     \<and> set (touchedPaths evs)
         \<subseteq> {formulaDirectoryOf L cfg @ ''/'' @ stem @ ''.ini'',
             formulaDirectoryOf L cfg @ ''/'' @ stem @ ''.xml'',
             cacheDirectoryOf L cfg @ ''/'' @ stem @ ''.png''}"
    using stem stem_no_separator [OF stem] by simp
  then show "\<exists>stem evs.
      GetFileNameWithoutExtension f = Inr stem
    \<and> \<not> list_ex isSeparatorChar stem
    \<and> trace (snd (Page_Load L req w))
        = trace w @ FileExists (formulaDirectoryOf L cfg @ ''/'' @ stem @ ''.ini'') # evs
    \<and> set (touchedPaths evs)
        \<subseteq> {formulaDirectoryOf L cfg @ ''/'' @ stem @ ''.ini'',
            formulaDirectoryOf L cfg @ ''/'' @ stem @ ''.xml'',
            cacheDirectoryOf L cfg @ ''/'' @ stem @ ''.png''}"
    by blast
qed

theorem formula_identifier_is_reduced_to_stem_witness:
  "Item (QueryString (demo_request [(Some ''formula'', ''../secret'')])) ''formula'' = Some ''../secret''
   \<and> \<not> list_ex isInvalidPathChar ''../secret''
   \<and> GetFileNameWithoutExtension ''../secret'' = Inr ''secret''
   \<and> (\<exists>evs. trace (snd (Page_Load demo (demo_request [(Some ''formula'', ''../secret'')]) demo_world))
              = trace demo_world @ FileExists ''/site/formulas/secret.ini'' # evs)
   \<and> Item (QueryString (demo_request [(Some ''formula'', ''a<b'')])) ''formula'' = Some ''a<b''
   \<and> list_ex isInvalidPathChar ''a<b''
   \<and> Page_Load demo (demo_request [(Some ''formula'', ''a<b'')]) demo_world
       = (Inl ArgumentException, demo_world)"
proof -
  let ?req = "demo_request [(Some ''formula'', ''../secret'')]"
  let ?bad = "demo_request [(Some ''formula'', ''a<b'')]"
  have h1: "Item (QueryString ?req) ''formula'' = Some ''../secret''" by code_simp
  have h2: "[] = loadConfig demo (MapPath demo (configFile demo))" by code_simp
  have h3: "\<not> list_ex isInvalidPathChar ''../secret''" by code_simp
  have s: "GetFileNameWithoutExtension ''../secret'' = Inr ''secret''" by code_simp
  have p: "formulaDirectoryOf demo [] @ ''/'' @ ''secret'' @ ''.ini'' = ''/site/formulas/secret.ini''"
    by code_simp
  have b1: "Item (QueryString ?bad) ''formula'' = Some ''a<b''" by code_simp
  have b3: "list_ex isInvalidPathChar ''a<b''" by code_simp
  from formula_identifier_is_reduced_to_stem [OF h1 h2, of demo_world, THEN conjunct2, rule_format, OF h3]
  obtain stem evs where
    "GetFileNameWithoutExtension ''../secret'' = Inr stem"
    "trace (snd (Page_Load demo ?req demo_world))
       = trace demo_world @ FileExists (formulaDirectoryOf demo [] @ ''/'' @ stem @ ''.ini'') # evs"
    by blast
  then have c1: "\<exists>evs. trace (snd (Page_Load demo ?req demo_world))
              = trace demo_world @ FileExists ''/site/formulas/secret.ini'' # evs"
    unfolding s using p by auto
  have c2: "Page_Load demo ?bad demo_world = (Inl ArgumentException, demo_world)"
    by (rule formula_identifier_is_reduced_to_stem [OF b1 h2, of demo_world, THEN conjunct1,
          rule_format, OF b3])
  show ?thesis
    by (intro conjI) (rule h1 h3 s c1 b1 b3 c2)+
qed

section \<open>The request for raw MathML\<close>

text \<open>
  Claim C8 says that a request with \<open>mml\<close> and no \<open>formula\<close> never reads or writes a
  cache entry of a formula identifier. The slot it writes, \<open>cacheDir/temp.png\<close>, is the
  cache entry of the identifier \<open>temp\<close>: after such a request the cacheable request for
  \<open>temp\<close> is answered with the picture of the raw MathML.
\<close>

theorem mml_request_overwrites_temp_entry:
  "FileWrite (cacheDirectoryOf demo (loadConfig demo (MapPath demo (configFile demo)))
              @ ''/'' @ ''temp'' @ ''.png'')
     \<in> set (trace (snd (Page_Load demo (demo_request [(Some ''mml'', ''<x/>'')]) demo_world)))
   \<and> fst (Page_Load demo (demo_request [(Some ''formula'', ''temp'')]) demo_world)
       = Inr \<lparr>ContentType = ''image/png'', Body = ''[<temp/>]''\<rparr>
   \<and> fst (Page_Load demo (demo_request [(Some ''formula'', ''temp'')])
         (snd (Page_Load demo (demo_request [(Some ''mml'', ''<x/>'')]) demo_world)))
       = Inr \<lparr>ContentType = ''image/png'', Body = ''[<x/>]''\<rparr>"
  by code_simp

text \<open>
  Claim C8, as the page does it. A request with \<open>mml\<close> and no \<open>formula\<close> (the keys
  compared ignoring case, as the collection does) first calls the renderer, once, with
  the parameters \<open>{mml}\<close> alone; it touches no path but \<open>cacheDir/temp.png\<close>, so for
  every identifier that is not \<open>temp\<close> in any spelling of upper and lower case it
  touches no path that names the cache entry of the identifier, even ignoring case, and
  the entry is neither read nor written; and when the renderer answers and the slot can
  be written, the bytes are written to the slot and then served from it.
\<close>

theorem mml_request_uses_temp_slot:
  assumes "Item (QueryString req) ''formula'' = None"
    and "Item (QueryString req) ''mml'' = Some m"
    and "cfg = loadConfig L (MapPath L (configFile L))"
    and "tempPath = cacheDirectoryOf L cfg @ ''/temp.png''"
    and "r = Render (getImageServiceURL L cfg) [(''mml'', m)] (getReferer L req)"
  shows "(\<exists>evs. trace (snd (Page_Load L req w)) = trace w @ r # evs
            \<and> renders evs = []
            \<and> set (touchedPaths evs) \<subseteq> {tempPath}
            \<and> (\<forall>ident. \<not> equalsIgnoreCase ident ''temp'' \<longrightarrow>
                  (\<forall>p \<in> set (touchedPaths evs).
                     \<not> equalsIgnoreCase (cacheDirectoryOf L cfg @ ''/'' @ ident @ ''.png'') p)))
       \<and> (\<forall>ident. \<not> equalsIgnoreCase ident ''temp'' \<longrightarrow>
             files (snd (Page_Load L req w)) (cacheDirectoryOf L cfg @ ''/'' @ ident @ ''.png'')
               = files w (cacheDirectoryOf L cfg @ ''/'' @ ident @ ''.png''))
       \<and> (\<forall>stream.
             getContents L (getImageServiceURL L cfg) [(''mml'', m)] (getReferer L req) = Inr stream
             \<and> writable w tempPath \<longrightarrow>
             Page_Load L req w =
               (Inr \<lparr>ContentType = ''image/png'', Body = stream\<rparr>,
                w\<lparr>files := (files w)(tempPath \<mapsto> stream),
                  trace := trace w @ [r, FileWrite tempPath, FileRead tempPath]\<rparr>))"
proof -
  note PL = Page_Load_mml [OF assms(1-5)]
  have other: "\<not> equalsIgnoreCase (cacheDirectoryOf L cfg @ ''/'' @ ident @ ''.png'') tempPath"
    if "\<not> equalsIgnoreCase ident ''temp''" for ident
    using that unfolding assms(4) temp_slot_identifier_ignoring_case .
  have other': "cacheDirectoryOf L cfg @ ''/'' @ ident @ ''.png'' \<noteq> tempPath"
    if "\<not> equalsIgnoreCase ident ''temp''" for ident
    using other [OF that] by (auto simp del: append.simps)
  show ?thesis
  proof (cases "getContents L (getImageServiceURL L cfg) [(''mml'', m)] (getReferer L req)")
    case (Inl e)
    show ?thesis unfolding PL Inl by simp
  next
    case (Inr stream)
    show ?thesis
    proof (cases "writable w tempPath")
      case True
      then show ?thesis unfolding PL Inr using other other' by simp
    next
      case False
      then show ?thesis unfolding PL Inr using other other' by simp
    qed
  qed
qed

theorem mml_request_uses_temp_slot_witness:
  "Item (QueryString (demo_request [(Some ''mml'', ''<x/>'')])) ''formula'' = None
   \<and> Item (QueryString (demo_request [(Some ''mml'', ''<x/>'')])) ''mml'' = Some ''<x/>''
   \<and> getContents demo (getImageServiceURL demo (loadConfig demo (MapPath demo (configFile demo))))
         [(''mml'', ''<x/>'')] (getReferer demo (demo_request [(Some ''mml'', ''<x/>'')]))
       = Inr ''[<x/>]''
   \<and> writable demo_world ''/site/cache/temp.png''
   \<and> \<not> equalsIgnoreCase ''eq1'' ''temp''
   \<and> fst (Page_Load demo (demo_request [(Some ''mml'', ''<x/>'')]) demo_world)
       = Inr \<lparr>ContentType = ''image/png'', Body = ''[<x/>]''\<rparr>
   \<and> files (snd (Page_Load demo (demo_request [(Some ''mml'', ''<x/>'')]) demo_world))
         ''/site/cache/eq1.png''
       = files demo_world ''/site/cache/eq1.png''"
proof -
  let ?req = "demo_request [(Some ''mml'', ''<x/>'')]"
  let ?cfg = "loadConfig demo (MapPath demo (configFile demo))"
  have h1: "Item (QueryString ?req) ''formula'' = None" by code_simp
  have h2: "Item (QueryString ?req) ''mml'' = Some ''<x/>''" by code_simp
  have h4: "''/site/cache/temp.png'' = cacheDirectoryOf demo ?cfg @ ''/temp.png''" by code_simp
  have h6: "getContents demo (getImageServiceURL demo ?cfg) [(''mml'', ''<x/>'')] (getReferer demo ?req)
              = Inr ''[<x/>]''" by code_simp
  have h7: "writable demo_world ''/site/cache/temp.png''" by code_simp
  have h8: "\<not> equalsIgnoreCase ''eq1'' ''temp''" by code_simp
  have p: "''/site/cache/eq1.png'' = cacheDirectoryOf demo ?cfg @ ''/'' @ ''eq1'' @ ''.png''"
    by code_simp
  note inst = mml_request_uses_temp_slot [where L = demo and w = demo_world, OF h1 h2 refl h4 refl]
  have c1: "fst (Page_Load demo ?req demo_world) = Inr \<lparr>ContentType = ''image/png'', Body = ''[<x/>]''\<rparr>"
    using inst [THEN conjunct2, THEN conjunct2, rule_format, OF conjI [OF h6 h7]] by simp
  have c2: "files (snd (Page_Load demo ?req demo_world)) ''/site/cache/eq1.png''
              = files demo_world ''/site/cache/eq1.png''"
    using inst [THEN conjunct2, THEN conjunct1, rule_format, OF h8] unfolding p [symmetric] .
  show ?thesis
    by (intro conjI) (rule h1 h2 h6 h7 h8 c1 c2)+
qed

section \<open>A cache file that cannot be written\<close>

text \<open>
  Claim C9 says that the rendered bytes are served even when they cannot be written to
  the cache. The page serves the cache file it has just written and catches nothing: with
  a cache that cannot be written the renderer answers and the request ends with the
  exception of the write.
\<close>

theorem cache_write_failure_is_not_served:
  "getContents demo ''http://service/render'' [(''mml'', ''<math/>'')] ''http://site/page''
     = Inr ''[<math/>]''
   \<and> renders (trace (snd (Page_Load demo (demo_request [(Some ''formula'', ''eq1'')])
         (demo_world\<lparr>writable := (\<lambda>path. False)\<rparr>))))
       = [Render ''http://service/render'' [(''mml'', ''<math/>'')] ''http://site/page'']
   \<and> fst (Page_Load demo (demo_request [(Some ''formula'', ''eq1'')])
         (demo_world\<lparr>writable := (\<lambda>path. False)\<rparr>))
       = Inl (IOException ''/site/cache/eq1.png'')"
  by code_simp

text \<open>
  Claim C9, as the page does it. A cacheable request for an identifier without a cache
  entry, whose descriptor is read and rendered, ends with the exception of the write when
  \<open>cacheDir/ident.png\<close> cannot be opened for writing: the renderer has been called once,
  no file has changed and no bytes are served.
\<close>

theorem cache_write_failure_fails_request:
  assumes "Item (QueryString req) ''formula'' = Some f"
    and "GetFileNameWithoutExtension f = Inr ident"
    and "mustBeCached L req"
    and "cfg = loadConfig L (MapPath L (configFile L))"
    and "fp = formulaDirectoryOf L cfg @ ''/'' @ ident"
    and "imagePath = cacheDirectoryOf L cfg @ ''/'' @ ident @ ''.png''"
    and "ext = (if files w (fp @ ''.ini'') \<noteq> None then ''ini'' else ''xml'')"
    and "files w imagePath = None"
    and "fst (createImage_configAndFonts L cfg fp ext w) = Inr caf"
    and "url = getImageServiceURL L (fst (createImage_properties L req caf False))"
    and "properties = snd (createImage_properties L req caf False)"
    and "getContents L url properties (getReferer L req) = Inr stream"
    and "\<not> writable w imagePath"
  shows "fst (Page_Load L req w) = Inl (IOException imagePath)
       \<and> files (snd (Page_Load L req w)) = files w
       \<and> renders (trace (snd (Page_Load L req w)))
           = renders (trace w) @ [Render url properties (getReferer L req)]"
proof -
  note PL = Page_Load_fresh [OF assms(1-8)]
  show ?thesis
    unfolding PL assms(9) using assms(12,13) unfolding assms(10,11) by (simp add: Let_def)
qed

theorem cache_write_failure_fails_request_witness:
  "Item (QueryString (demo_request [(Some ''formula'', ''eq1'')])) ''formula'' = Some ''eq1''
   \<and> GetFileNameWithoutExtension ''eq1'' = Inr ''eq1''
   \<and> mustBeCached demo (demo_request [(Some ''formula'', ''eq1'')])
   \<and> files (demo_world\<lparr>writable := (\<lambda>path. False)\<rparr>) ''/site/cache/eq1.png'' = None
   \<and> fst (createImage_configAndFonts demo [] ''/site/formulas/eq1'' ''xml''
             (demo_world\<lparr>writable := (\<lambda>path. False)\<rparr>))
       = Inr \<lparr>caf_mathml = ''<math/>'', caf_config = [], caf_fonts = []\<rparr>
   \<and> getContents demo ''http://service/render'' [(''mml'', ''<math/>'')] ''http://site/page''
       = Inr ''[<math/>]''
   \<and> \<not> writable (demo_world\<lparr>writable := (\<lambda>path. False)\<rparr>) ''/site/cache/eq1.png''
   \<and> fst (Page_Load demo (demo_request [(Some ''formula'', ''eq1'')])
         (demo_world\<lparr>writable := (\<lambda>path. False)\<rparr>))
       = Inl (IOException ''/site/cache/eq1.png'')"
proof -
  let ?req = "demo_request [(Some ''formula'', ''eq1'')]"
  let ?w = "demo_world\<lparr>writable := (\<lambda>path. False)\<rparr>"
  let ?caf = "\<lparr>caf_mathml = ''<math/>'', caf_config = [], caf_fonts = []\<rparr>"
  have h1: "Item (QueryString ?req) ''formula'' = Some ''eq1''" by code_simp
  have h2: "GetFileNameWithoutExtension ''eq1'' = Inr ''eq1''" by code_simp
  have h3: "mustBeCached demo ?req" by code_simp
  have h4: "[] = loadConfig demo (MapPath demo (configFile demo))" by code_simp
  have h5: "''/site/formulas/eq1'' = formulaDirectoryOf demo [] @ ''/'' @ ''eq1''" by code_simp
  have h6: "''/site/cache/eq1.png'' = cacheDirectoryOf demo [] @ ''/'' @ ''eq1'' @ ''.png''"
    by code_simp
  have h7: "''xml'' = (if files ?w (''/site/formulas/eq1'' @ ''.ini'') \<noteq> None then ''ini'' else ''xml'')"
    by code_simp
  have h8: "files ?w ''/site/cache/eq1.png'' = None" by code_simp
  have h9: "fst (createImage_configAndFonts demo [] ''/site/formulas/eq1'' ''xml'' ?w) = Inr ?caf"
    by code_simp
  have h10: "''http://service/render''
               = getImageServiceURL demo (fst (createImage_properties demo ?req ?caf False))"
    by code_simp
  have h11: "[(''mml'', ''<math/>'')] = snd (createImage_properties demo ?req ?caf False)"
    by code_simp
  have r: "getReferer demo ?req = ''http://site/page''" by code_simp
  have g: "getContents demo ''http://service/render'' [(''mml'', ''<math/>'')] ''http://site/page''
       = Inr ''[<math/>]''" by code_simp
  have h12: "getContents demo ''http://service/render'' [(''mml'', ''<math/>'')] (getReferer demo ?req)
       = Inr ''[<math/>]''" unfolding r by (rule g)
  have h13: "\<not> writable ?w ''/site/cache/eq1.png''" by simp
  note inst = cache_write_failure_fails_request [OF h1 h2 h3 h4 h5 h6 h7 h8 h9 h10 h11 h12 h13]
  show ?thesis
    by (intro conjI) (rule h1 h2 h3 h8 h9 g h13 inst [THEN conjunct1])+
qed

section \<open>The parameters sent to the renderer\<close>

text \<open>
  Claim C7. The parameters built with \<open>useParams\<close> false are those computed from the
  descriptor, whatever the query string holds. With \<open>useParams\<close> true the configuration
  is the same, and a parameter has the caller's value exactly when its name is a key of
  the query string that is in the attribute list or starts with \<open>font\<close>; every other
  parameter keeps the value computed from the descriptor.
\<close>

theorem caller_overrides_overlay:
  "snd (createImage_properties L req caf False) = snd (createImage_properties L req' caf False)
   \<and> fst (createImage_properties L req caf True) = fst (createImage_properties L req caf False)
   \<and> ht_get (snd (createImage_properties L req caf True)) k =
       (if Some k \<in> set (AllKeys (QueryString req))
           \<and> (k \<in> set (xmlFileAttributes L) \<or> take 4 k = ''font'')
        then Item (QueryString req) k
        else ht_get (snd (createImage_properties L req caf False)) k)"
proof (intro conjI)
  show "snd (createImage_properties L req caf False) = snd (createImage_properties L req' caf False)"
    using createImage_properties_False [of L req caf req'] by simp
  show "fst (createImage_properties L req caf True) = fst (createImage_properties L req caf False)"
    by (simp add: createImage_properties_True)
  show "ht_get (snd (createImage_properties L req caf True)) k =
       (if Some k \<in> set (AllKeys (QueryString req))
           \<and> (k \<in> set (xmlFileAttributes L) \<or> take 4 k = ''font'')
        then Item (QueryString req) k
        else ht_get (snd (createImage_properties L req caf False)) k)"
    using Item_AllKeys [of k "QueryString req"]
    by (cases "Some k \<in> set (AllKeys (QueryString req))")
       (simp_all add: createImage_properties_True createImage_userParams_get)
qed

theorem caller_overrides_overlay_witness:
  "ht_get (snd (createImage_properties demo
       (demo_request [(Some ''formula'', ''eq1''), (Some ''bgColor'', ''red''), (Some ''other'', ''x'')])
       \<lparr>caf_mathml = ''<math/>'', caf_config = [(''wirisimagebgcolor'', ''white'')], caf_fonts = []\<rparr>
       True)) ''bgColor'' = Some ''red''
   \<and> ht_get (snd (createImage_properties demo
       (demo_request [(Some ''formula'', ''eq1''), (Some ''bgColor'', ''red''), (Some ''other'', ''x'')])
       \<lparr>caf_mathml = ''<math/>'', caf_config = [(''wirisimagebgcolor'', ''white'')], caf_fonts = []\<rparr>
       True)) ''other'' = None
   \<and> ht_get (snd (createImage_properties demo
       (demo_request [(Some ''formula'', ''eq1''), (Some ''bgColor'', ''red''), (Some ''other'', ''x'')])
       \<lparr>caf_mathml = ''<math/>'', caf_config = [(''wirisimagebgcolor'', ''white'')], caf_fonts = []\<rparr>
       False)) ''bgColor'' = Some ''white''"
proof -
  let ?req = "demo_request [(Some ''formula'', ''eq1''), (Some ''bgColor'', ''red''), (Some ''other'', ''x'')]"
  let ?caf = "\<lparr>caf_mathml = ''<math/>'', caf_config = [(''wirisimagebgcolor'', ''white'')], caf_fonts = []\<rparr>"
  have k1: "Some ''bgColor'' \<in> set (AllKeys (QueryString ?req))
            \<and> (''bgColor'' \<in> set (xmlFileAttributes demo) \<or> take 4 ''bgColor'' = ''font'')"
    by code_simp
  have k2: "\<not> (Some ''other'' \<in> set (AllKeys (QueryString ?req))
            \<and> (''other'' \<in> set (xmlFileAttributes demo) \<or> take 4 ''other'' = ''font''))"
    by code_simp
  have i1: "Item (QueryString ?req) ''bgColor'' = Some ''red''" by code_simp
  have b1: "ht_get (snd (createImage_properties demo ?req ?caf False)) ''bgColor'' = Some ''white''"
    by code_simp
  have b2: "ht_get (snd (createImage_properties demo ?req ?caf False)) ''other'' = None"
    by code_simp
  note inst = caller_overrides_overlay [of demo ?req ?caf ?req, THEN conjunct2, THEN conjunct2]
  have c1: "ht_get (snd (createImage_properties demo ?req ?caf True)) ''bgColor'' = Some ''red''"
    unfolding inst [of "''bgColor''"] if_P [OF k1] by (rule i1)
  have c2: "ht_get (snd (createImage_properties demo ?req ?caf True)) ''other'' = None"
    unfolding inst [of "''other''"] if_not_P [OF k2] by (rule b2)
  show ?thesis
    by (intro conjI) (rule c1 c2 b1)+
qed

text \<open>
  Claim C10. The test of \<open>mustBeCached\<close> and the overlay of the caller's parameters
  look at the keys in the same way, so for a cacheable request building the parameters
  with the overlay gives what building them without it gives; the parameters built
  without the overlay are the same for any two requests; and two cacheable requests with
  the same \<open>formula\<close> and the same referer are answered alike, whatever else their
  query strings hold.
\<close>

theorem cacheable_response_ignores_other_parameters:
  assumes "mustBeCached L r1"
    and "mustBeCached L r2"
    and "Item (QueryString r1) ''formula'' = Some f"
    and "Item (QueryString r2) ''formula'' = Some f"
    and "getReferer L r1 = getReferer L r2"
  shows "createImage_properties L r1 caf True = createImage_properties L r1 caf False
       \<and> createImage_properties L r1 caf False = createImage_properties L r2 caf False
       \<and> Page_Load L r1 w = Page_Load L r2 w"
proof (intro conjI)
  show "createImage_properties L r1 caf True = createImage_properties L r1 caf False"
    using assms(1)
    by (simp add: createImage_properties_True mustBeCached_def createImage_userParams_cacheable)
  show "createImage_properties L r1 caf False = createImage_properties L r2 caf False"
    by (rule createImage_properties_False)
  show "Page_Load L r1 w = Page_Load L r2 w"
  proof (cases "GetFileNameWithoutExtension f")
    case (Inl e)
    then show ?thesis
      using assms(3,4) by (simp add: Page_Load_def)
  next
    case (Inr ident)
    define cfg where "cfg = loadConfig L (MapPath L (configFile L))"
    define fp where "fp = formulaDirectoryOf L cfg @ ''/'' @ ident"
    define imagePath where "imagePath = cacheDirectoryOf L cfg @ ''/'' @ ident @ ''.png''"
    define ext where "ext = (if files w (fp @ ''.ini'') \<noteq> None then ''ini'' else ''xml'')"
    show ?thesis
    proof (cases "files w imagePath")
      case (Some bytes)
      show ?thesis
        unfolding Page_Load_cached [OF assms(3) Inr assms(1) cfg_def fp_def imagePath_def Some]
          Page_Load_cached [OF assms(4) Inr assms(2) cfg_def fp_def imagePath_def Some]
        by (rule refl)
    next
      case None
      have same: "createImage_properties L r1 c False = createImage_properties L r2 c False" for c
        by (rule createImage_properties_False)
      show ?thesis
        unfolding Page_Load_fresh [OF assms(3) Inr assms(1) cfg_def fp_def imagePath_def ext_def None]
          Page_Load_fresh [OF assms(4) Inr assms(2) cfg_def fp_def imagePath_def ext_def None]
          same assms(5)
        by (rule refl)
    qed
  qed
qed

theorem cacheable_response_ignores_other_parameters_witness:
  "mustBeCached demo (demo_request [(Some ''formula'', ''eq1'')])
   \<and> mustBeCached demo (demo_request [(Some ''lang'', ''en''), (Some ''formula'', ''eq1'')])
   \<and> Item (QueryString (demo_request [(Some ''formula'', ''eq1'')])) ''formula'' = Some ''eq1''
   \<and> Item (QueryString (demo_request [(Some ''lang'', ''en''), (Some ''formula'', ''eq1'')])) ''formula''
       = Some ''eq1''
   \<and> getReferer demo (demo_request [(Some ''formula'', ''eq1'')])
       = getReferer demo (demo_request [(Some ''lang'', ''en''), (Some ''formula'', ''eq1'')])
   \<and> Page_Load demo (demo_request [(Some ''formula'', ''eq1'')]) demo_world
       = Page_Load demo (demo_request [(Some ''lang'', ''en''), (Some ''formula'', ''eq1'')]) demo_world
   \<and> fst (Page_Load demo (demo_request [(Some ''lang'', ''en''), (Some ''formula'', ''eq1'')]) demo_world)
       = Inr \<lparr>ContentType = ''image/png'', Body = ''[<math/>]''\<rparr>"
proof -
  let ?r1 = "demo_request [(Some ''formula'', ''eq1'')]"
  let ?r2 = "demo_request [(Some ''lang'', ''en''), (Some ''formula'', ''eq1'')]"
  have h1: "mustBeCached demo ?r1" by code_simp
  have h2: "mustBeCached demo ?r2" by code_simp
  have h3: "Item (QueryString ?r1) ''formula'' = Some ''eq1''" by code_simp
  have h4: "Item (QueryString ?r2) ''formula'' = Some ''eq1''" by code_simp
  have h5: "getReferer demo ?r1 = getReferer demo ?r2" by code_simp
  have v: "fst (Page_Load demo ?r2 demo_world)
             = Inr \<lparr>ContentType = ''image/png'', Body = ''[<math/>]''\<rparr>" by code_simp
  have c: "Page_Load demo ?r1 demo_world = Page_Load demo ?r2 demo_world"
    by (rule cacheable_response_ignores_other_parameters [OF h1 h2 h3 h4 h5,
          THEN conjunct2, THEN conjunct2])
  show ?thesis
    by (intro conjI) (rule h1 h2 h3 h4 h5 c v)+
qed

text \<open>
  Claim C6. When the configuration holds \<open>wirisimagefontranges\<close>, the names of its
  comma-separated list that the configuration holds, in their order, are the resolved
  ranges. The \<open>k\<close>-th resolved range is sent as the font \<open>carry + k\<close>, where \<open>carry\<close> is the
  number of fonts of the descriptor, with the trimmed value of the range: a name that is
  not resolved takes no index, and an index that an existing font already has is
  overwritten. A font of the descriptor whose name is none of these keeps its name and
  value. (Both hold for a parameter that the caller does not override.)
\<close>

theorem font_ranges_continue_numbering:
  assumes "cfg = fst (createImage_properties L req caf useParams)"
    and "ht_get cfg ''wirisimagefontranges'' = Some ranges"
    and "resolved = filter (\<lambda>n. ht_get cfg n \<noteq> None) (map Trim (Split CHR '','' ranges))"
    and "carry = ht_Count (caf_fonts caf)"
    and "properties = snd (createImage_properties L req caf useParams)"
  shows "(\<forall>k < length resolved.
            (useParams \<longrightarrow> Some (''font'' @ showNat (carry + k)) \<notin> set (AllKeys (QueryString req))) \<longrightarrow>
            (\<exists>v. ht_get cfg (resolved ! k) = Some v
                \<and> ht_get properties (''font'' @ showNat (carry + k)) = Some (Trim v)))
       \<and> (\<forall>key v.
            ht_get (caf_fonts caf) key = Some v
            \<and> (\<forall>k < length resolved. key \<noteq> ''font'' @ showNat (carry + k))
            \<and> (useParams \<longrightarrow> Some key \<notin> set (AllKeys (QueryString req))) \<longrightarrow>
            ht_get properties key = Some v)"
proof -
  define fnts where
    "fnts = createImage_fontRanges cfg (Split CHR '','' ranges) carry 0 (caf_fonts caf)"
  define base where
    "base = createImage_config (imageConfigProperties L) cfg (ht_set [] ''mml'' (caf_mathml caf))"
  have cfgF: "cfg = fst (createImage_properties L req caf False)"
    unfolding assms(1) by (rule createImage_properties_fst)
  have propsF: "snd (createImage_properties L req caf False) = createImage_fonts fnts fnts base"
    unfolding createImage_properties_snd_False cfgF [symmetric] Let_def assms(2) fnts_def base_def
      assms(4) by simp
  have get: "ht_get properties key
               = (case ht_get fnts key of None \<Rightarrow> ht_get base key | Some v \<Rightarrow> Some v)"
    if "useParams \<longrightarrow> Some key \<notin> set (AllKeys (QueryString req))" for key
    unfolding assms(5) createImage_properties_not_overridden [OF that] propsF
    by (rule createImage_fonts_self)
  show ?thesis
  proof (intro conjI allI impI)
    fix k
    assume k: "k < length resolved"
      and free: "useParams \<longrightarrow> Some (''font'' @ showNat (carry + k)) \<notin> set (AllKeys (QueryString req))"
    from k have "resolved ! k \<in> set resolved" by simp
    then have "ht_get cfg (resolved ! k) \<noteq> None" unfolding assms(3) by simp
    then obtain v where v: "ht_get cfg (resolved ! k) = Some v" by blast
    have "ht_get fnts (''font'' @ showNat (carry + 0 + k))
            = map_option Trim (ht_get cfg (resolved ! k))"
      unfolding fnts_def assms(3) using k [unfolded assms(3)]
      by (rule createImage_fontRanges_get)
    then have "ht_get fnts (''font'' @ showNat (carry + k)) = Some (Trim v)"
      using v by simp
    then have "ht_get properties (''font'' @ showNat (carry + k)) = Some (Trim v)"
      using get [OF free] by simp
    with v show "\<exists>v. ht_get cfg (resolved ! k) = Some v
        \<and> ht_get properties (''font'' @ showNat (carry + k)) = Some (Trim v)" by blast
  next
    fix key v
    assume a: "ht_get (caf_fonts caf) key = Some v
            \<and> (\<forall>k < length resolved. key \<noteq> ''font'' @ showNat (carry + k))
            \<and> (useParams \<longrightarrow> Some key \<notin> set (AllKeys (QueryString req)))"
    then have "\<forall>k < length (filter (\<lambda>n. ht_get cfg n \<noteq> None) (map Trim (Split CHR '','' ranges))).
                 key \<noteq> ''font'' @ showNat (carry + 0 + k)"
      unfolding assms(3) by simp
    then have "ht_get fnts key = ht_get (caf_fonts caf) key"
      unfolding fnts_def by (rule createImage_fontRanges_other)
    with a have "ht_get fnts key = Some v" by simp
    moreover from a have "useParams \<longrightarrow> Some key \<notin> set (AllKeys (QueryString req))" by simp
    ultimately show "ht_get properties key = Some v"
      using get by simp
  qed
qed

theorem font_ranges_continue_numbering_witness:
  "ht_get [(''wirisimagefontranges'', ''rangeA,missing, rangeB''), (''rangeA'', ''10-20''),
            (''rangeB'', ''30-40'')] ''wirisimagefontranges'' = Some ''rangeA,missing, rangeB''
   \<and> filter (\<lambda>n. ht_get [(''wirisimagefontranges'', ''rangeA,missing, rangeB''),
                           (''rangeA'', ''10-20''), (''rangeB'', ''30-40'')] n \<noteq> None)
         (map Trim (Split CHR '','' ''rangeA,missing, rangeB'')) = [''rangeA'', ''rangeB'']
   \<and> ht_Count [(''font0'', ''Arial''), (''font1'', ''Times'')] = 2
   \<and> ht_get (snd (createImage_properties demo (demo_request [(Some ''formula'', ''eq1'')])
        \<lparr>caf_mathml = ''<math/>'',
          caf_config = [(''wirisimagefontranges'', ''rangeA,missing, rangeB''),
                        (''rangeA'', ''10-20''), (''rangeB'', ''30-40'')],
          caf_fonts = [(''font0'', ''Arial''), (''font1'', ''Times'')]\<rparr> False)) ''font2''
       = Some ''10-20''
   \<and> ht_get (snd (createImage_properties demo (demo_request [(Some ''formula'', ''eq1'')])
        \<lparr>caf_mathml = ''<math/>'',
          caf_config = [(''wirisimagefontranges'', ''rangeA,missing, rangeB''),
                        (''rangeA'', ''10-20''), (''rangeB'', ''30-40'')],
          caf_fonts = [(''font0'', ''Arial''), (''font1'', ''Times'')]\<rparr> False)) ''font3''
       = Some ''30-40''
   \<and> ht_get (snd (createImage_properties demo (demo_request [(Some ''formula'', ''eq1'')])
        \<lparr>caf_mathml = ''<math/>'',
          caf_config = [(''wirisimagefontranges'', ''rangeA,missing, rangeB''),
                        (''rangeA'', ''10-20''), (''rangeB'', ''30-40'')],
          caf_fonts = [(''font0'', ''Arial''), (''font1'', ''Times'')]\<rparr> False)) ''font0''
       = Some ''Arial''"
proof -
  let ?req = "demo_request [(Some ''formula'', ''eq1'')]"
  let ?cfg = "[(''wirisimagefontranges'', ''rangeA,missing, rangeB''), (''rangeA'', ''10-20''),
               (''rangeB'', ''30-40'')]"
  let ?fonts = "[(''font0'', ''Arial''), (''font1'', ''Times'')]"
  let ?caf = "\<lparr>caf_mathml = ''<math/>'', caf_config = ?cfg, caf_fonts = ?fonts\<rparr>"
  let ?props = "snd (createImage_properties demo ?req ?caf False)"
  have a1: "?cfg = fst (createImage_properties demo ?req ?caf False)" by code_simp
  have a2: "ht_get ?cfg ''wirisimagefontranges'' = Some ''rangeA,missing, rangeB''" by code_simp
  have a3: "filter (\<lambda>n. ht_get ?cfg n \<noteq> None) (map Trim (Split CHR '','' ''rangeA,missing, rangeB''))
              = [''rangeA'', ''rangeB'']" by code_simp
  have a4: "ht_Count ?fonts = 2" by code_simp
  have a4': "2 = ht_Count (caf_fonts ?caf)" by code_simp
  have n2: "''font'' @ showNat (2 + 0) = ''font2''" by code_simp
  have n3: "''font'' @ showNat (2 + 1) = ''font3''" by code_simp
  have rA: "ht_get ?cfg ([''rangeA'', ''rangeB''] ! 0) = Some ''10-20''" by code_simp
  have rB: "ht_get ?cfg ([''rangeA'', ''rangeB''] ! 1) = Some ''30-40''" by code_simp
  have tA: "Trim ''10-20'' = ''10-20''" by code_simp
  have tB: "Trim ''30-40'' = ''30-40''" by code_simp
  have f0: "ht_get (caf_fonts ?caf) ''font0'' = Some ''Arial''" by code_simp
  have d0: "\<forall>k < length [''rangeA'', ''rangeB'']. ''font0'' \<noteq> ''font'' @ showNat (2 + k)"
  proof (intro allI impI)
    fix k :: nat assume "k < length [''rangeA'', ''rangeB'']"
    then have "k = 0 \<or> k = 1" by auto
    moreover have "''font0'' \<noteq> ''font'' @ showNat (2 + 0)" unfolding n2 by simp
    moreover have "''font0'' \<noteq> ''font'' @ showNat (2 + 1)" unfolding n3 by simp
    ultimately show "''font0'' \<noteq> ''font'' @ showNat (2 + k)" by blast
  qed
  note inst = font_ranges_continue_numbering [where useParams = False and L = demo and req = ?req
      and caf = ?caf, OF a1 a2 a3 [symmetric] a4' refl]
  have l0: "(0::nat) < length [''rangeA'', ''rangeB'']" by simp
  have l1: "(1::nat) < length [''rangeA'', ''rangeB'']" by simp
  have c2: "ht_get ?props ''font2'' = Some ''10-20''"
  proof -
    from inst [THEN conjunct1] l0
    obtain v where "ht_get ?cfg ([''rangeA'', ''rangeB''] ! 0) = Some v"
      and p: "ht_get ?props (''font'' @ showNat (2 + 0)) = Some (Trim v)" by blast
    with rA have "v = ''10-20''" by simp
    with p show ?thesis unfolding n2 by (simp only: tA)
  qed
  have c3: "ht_get ?props ''font3'' = Some ''30-40''"
  proof -
    from inst [THEN conjunct1] l1
    obtain v where "ht_get ?cfg ([''rangeA'', ''rangeB''] ! 1) = Some v"
      and p: "ht_get ?props (''font'' @ showNat (2 + 1)) = Some (Trim v)" by blast
    with rB have "v = ''30-40''" by simp
    with p show ?thesis unfolding n3 by (simp only: tB)
  qed
  have c0: "ht_get ?props ''font0'' = Some ''Arial''"
    using inst [THEN conjunct2] f0 d0 by blast
  show ?thesis
    by (intro conjI) (rule a2 a3 a4 c2 c3 c0)+
qed

text \<open>
  Claim C5. For a descriptor read in either format whose configuration holds
  \<open>wirisimagesymbolcolor\<close> and does not hold \<open>wirisimagenumbercolor\<close>, the parameter
  that the table gives to \<open>wirisimagenumbercolor\<close> is sent with the trimmed value of the
  symbol colour; the same for \<open>wirisimageidentcolor\<close>. (The table has one entry per key,
  the name of the parameter does not start with \<open>font\<close>, and the caller does not
  override it.)
\<close>

theorem symbolcolor_is_inherited:
  assumes "parsed = getConfigurationAndFonts_content L cfg0 content
           \<or> parsed = getConfigurationAndFontsFromIni_table L cfg0 formulaConfig"
    and "parsed = Inr caf"
    and "ht_get (caf_config caf) ''wirisimagesymbolcolor'' = Some v"
    and "distinct (map fst (imageConfigProperties L))"
    and "take 4 p \<noteq> ''font''"
    and "useParams \<longrightarrow> Some p \<notin> set (AllKeys (QueryString req))"
    and "properties = snd (createImage_properties L req caf useParams)"
  shows "(ht_get (caf_config caf) ''wirisimagenumbercolor'' = None
          \<and> (p, ''wirisimagenumbercolor'') \<in> set (imageConfigProperties L)
          \<longrightarrow> ht_get properties p = Some (Trim v))
       \<and> (ht_get (caf_config caf) ''wirisimageidentcolor'' = None
          \<and> (p, ''wirisimageidentcolor'') \<in> set (imageConfigProperties L)
          \<longrightarrow> ht_get properties p = Some (Trim v))"
proof -
  define cfg where "cfg = fst (createImage_properties L req caf False)"
  define fnts where
    "fnts = (case ht_get cfg ''wirisimagefontranges'' of
               None \<Rightarrow> caf_fonts caf
             | Some ranges \<Rightarrow>
                 createImage_fontRanges cfg (Split CHR '','' ranges)
                   (ht_Count (caf_fonts caf)) 0 (caf_fonts caf))"
  define base where
    "base = createImage_config (imageConfigProperties L) cfg (ht_set [] ''mml'' (caf_mathml caf))"
  have keys0: "\<forall>k \<in> fst ` set (caf_fonts caf). take 4 k = ''font''"
    using assms(1,2) by (rule parsed_fonts_keys)
  have keys: "\<forall>k \<in> fst ` set fnts. take 4 k = ''font''"
  proof (cases "ht_get cfg ''wirisimagefontranges''")
    case None
    then show ?thesis using keys0 by (simp add: fnts_def)
  next
    case (Some ranges)
    then show ?thesis
      using createImage_fontRanges_keys [OF keys0] by (simp add: fnts_def)
  qed
  have "p \<notin> fst ` set fnts"
    using keys assms(5) by blast
  then have nofont: "ht_get fnts p = None"
    by (simp add: ht_get_None_iff)
  have "snd (createImage_properties L req caf False) = createImage_fonts fnts fnts base"
    unfolding createImage_properties_snd_False cfg_def [symmetric] Let_def fnts_def base_def
    by (rule refl)
  then have "ht_get (snd (createImage_properties L req caf False)) p = ht_get base p"
    using nofont by (simp add: createImage_fonts_self)
  then have props: "ht_get properties p = ht_get base p"
    unfolding assms(7) createImage_properties_not_overridden [OF assms(6)] .
  show ?thesis
  proof (intro conjI impI)
    assume "ht_get (caf_config caf) ''wirisimagenumbercolor'' = None
          \<and> (p, ''wirisimagenumbercolor'') \<in> set (imageConfigProperties L)"
    then have none: "ht_get (caf_config caf) ''wirisimagenumbercolor'' = None"
      and mem: "(p, ''wirisimagenumbercolor'') \<in> set (imageConfigProperties L)" by simp_all
    have "ht_get cfg ''wirisimagenumbercolor'' = Some v"
      unfolding cfg_def using assms(3) none by (rule createImage_properties_numbercolor)
    with assms(4) mem have "ht_get base p = Some (Trim v)"
      unfolding base_def by (rule createImage_config_get)
    with props show "ht_get properties p = Some (Trim v)" by simp
  next
    assume "ht_get (caf_config caf) ''wirisimageidentcolor'' = None
          \<and> (p, ''wirisimageidentcolor'') \<in> set (imageConfigProperties L)"
    then have none: "ht_get (caf_config caf) ''wirisimageidentcolor'' = None"
      and mem: "(p, ''wirisimageidentcolor'') \<in> set (imageConfigProperties L)" by simp_all
    have "ht_get cfg ''wirisimageidentcolor'' = Some v"
      unfolding cfg_def using assms(3) none by (rule createImage_properties_identcolor)
    with assms(4) mem have "ht_get base p = Some (Trim v)"
      unfolding base_def by (rule createImage_config_get)
    with props show "ht_get properties p = Some (Trim v)" by simp
  qed
qed

theorem symbolcolor_is_inherited_witness:
  "getConfigurationAndFonts_content demo [] (''<math/>'' @ CHR 0x0A # ''white'' @ CHR 0x0A # '' blue'')
     = Inr \<lparr>caf_mathml = ''<math/>'',
            caf_config = [(''wirisimagebgcolor'', ''white''), (''wirisimagesymbolcolor'', ''blue'')],
            caf_fonts = []\<rparr>
   \<and> getConfigurationAndFontsFromIni_table demo [] [(''mml'', ''<math/>''), (''symbolColor'', ''blue '')]
       = Inr \<lparr>caf_mathml = ''<math/>'', caf_config = [(''wirisimagesymbolcolor'', ''blue'')],
              caf_fonts = []\<rparr>
   \<and> distinct (map fst (imageConfigProperties demo))
   \<and> (''numberColor'', ''wirisimagenumbercolor'') \<in> set (imageConfigProperties demo)
   \<and> (''identColor'', ''wirisimageidentcolor'') \<in> set (imageConfigProperties demo)
   \<and> ht_get (snd (createImage_properties demo (demo_request [(Some ''formula'', ''eq1'')])
         \<lparr>caf_mathml = ''<math/>'',
           caf_config = [(''wirisimagebgcolor'', ''white''), (''wirisimagesymbolcolor'', ''blue'')],
           caf_fonts = []\<rparr> False)) ''numberColor'' = Some ''blue''
   \<and> ht_get (snd (createImage_properties demo (demo_request [(Some ''formula'', ''eq1'')])
         \<lparr>caf_mathml = ''<math/>'', caf_config = [(''wirisimagesymbolcolor'', ''blue'')],
           caf_fonts = []\<rparr> False)) ''identColor'' = Some ''blue''"
proof -
  let ?req = "demo_request [(Some ''formula'', ''eq1'')]"
  let ?content = "''<math/>'' @ CHR 0x0A # ''white'' @ CHR 0x0A # '' blue''"
  let ?table = "[(''mml'', ''<math/>''), (''symbolColor'', ''blue '')]"
  let ?cafL = "\<lparr>caf_mathml = ''<math/>'',
            caf_config = [(''wirisimagebgcolor'', ''white''), (''wirisimagesymbolcolor'', ''blue'')],
            caf_fonts = []\<rparr>"
  let ?cafI = "\<lparr>caf_mathml = ''<math/>'', caf_config = [(''wirisimagesymbolcolor'', ''blue'')],
            caf_fonts = []\<rparr>"
  have pL: "getConfigurationAndFonts_content demo [] ?content = Inr ?cafL" by code_simp
  have pI: "getConfigurationAndFontsFromIni_table demo [] ?table = Inr ?cafI" by code_simp
  have sL: "ht_get (caf_config ?cafL) ''wirisimagesymbolcolor'' = Some ''blue''" by code_simp
  have sI: "ht_get (caf_config ?cafI) ''wirisimagesymbolcolor'' = Some ''blue''" by code_simp
  have d: "distinct (map fst (imageConfigProperties demo))" by code_simp
  have fN: "take 4 ''numberColor'' \<noteq> ''font''" by code_simp
  have fI: "take 4 ''identColor'' \<noteq> ''font''" by code_simp
  have u: "False \<longrightarrow> Some q \<notin> set (AllKeys (QueryString ?req))" for q by simp
  have nL: "ht_get (caf_config ?cafL) ''wirisimagenumbercolor'' = None" by code_simp
  have nI: "ht_get (caf_config ?cafI) ''wirisimageidentcolor'' = None" by code_simp
  have mN: "(''numberColor'', ''wirisimagenumbercolor'') \<in> set (imageConfigProperties demo)"
    by code_simp
  have mI: "(''identColor'', ''wirisimageidentcolor'') \<in> set (imageConfigProperties demo)"
    by code_simp
  have t: "Trim ''blue'' = ''blue''" by code_simp
  have cL: "ht_get (snd (createImage_properties demo ?req ?cafL False)) ''numberColor'' = Some ''blue''"
    using symbolcolor_is_inherited [where L = demo and useParams = False and req = ?req,
        OF disjI1 [OF refl] pL sL d fN u refl, THEN conjunct1, rule_format, OF conjI [OF nL mN]]
    by (simp only: t)
  have cI: "ht_get (snd (createImage_properties demo ?req ?cafI False)) ''identColor'' = Some ''blue''"
    using symbolcolor_is_inherited [where L = demo and useParams = False and req = ?req,
        OF disjI2 [OF refl] pI sI d fI u refl, THEN conjunct2, rule_format, OF conjI [OF nI mI]]
    by (simp only: t)
  show ?thesis
    by (intro conjI) (rule pL pI d mN mI cL cI)+
qed

section \<open>The two formats of a descriptor\<close>



end
